theory Spec2Isabelle
  imports
    Main
    "HOL-Library.Word"
    "HOL-Library.Char_ord"
    "HOL-Library.List_Lexorder"
begin

section \<open>The Crate adapter for Prometheus remote read and write (server.go)\<close>

text \<open>
  A Go \<open>string\<close> is a sequence of bytes: \<^typ>\<open>string\<close>, with the byte-wise
  lexicographic order that \<open>sort.Strings\<close> uses. The three characters the escaper rewrites
  are written by their codes: \<open>CHR 0x5C\<close> is the backslash, \<open>CHR 0x22\<close> the double
  quote and \<open>CHR 0x27\<close> the single quote.
\<close>

subsection \<open>Values of the Go runtime and standard library\<close>

text \<open>A Go \<open>error\<close> value, by its message.\<close>

datatype error = Error string

text \<open>The run-time panics the translated functions can raise.\<close>

datatype panic = IndexOutOfRange | InterfaceConversion | NilDereference

text \<open>
  An \<open>int64\<close> is modelled by its value, an integer between \<open>- 2 ^ 63\<close> and
  \<open>2 ^ 63 - 1\<close> (the code does no arithmetic on it); a \<open>uint64\<close> is a 64-bit word.
  The conversion \<open>int64(u)\<close> keeps the bits and reads them in two's complement;
  \<open>uint64(i)\<close> keeps the low 64 bits.
\<close>

type_synonym int64 = int
type_synonym uint64 = "64 word"

definition int64 :: "uint64 \<Rightarrow> int64" where
  "int64 u = sint u"

definition uint64 :: "int64 \<Rightarrow> uint64" where
  "uint64 i = word_of_int i"

text \<open>
  A \<open>float64\<close> is its IEEE-754 bit pattern: \<open>math.Float64bits\<close> and
  \<open>math.Float64frombits\<close> reinterpret the same 64 bits, NaN payloads and signs of
  infinities and zeros included.
\<close>

datatype float64 = Float64frombits (Float64bits: uint64)

text \<open>\<open>strings.Join\<close> and \<open>strings.Repeat\<close>.\<close>

fun Join :: "string list \<Rightarrow> string \<Rightarrow> string" where
  "Join [] sep = []"
| "Join [a] sep = a"
| "Join (a # b # elems) sep = a @ sep @ Join (b # elems) sep"

primrec Repeat :: "string \<Rightarrow> nat \<Rightarrow> string" where
  "Repeat s 0 = []"
| "Repeat s (Suc n) = s @ Repeat s n"

text \<open>
  \<open>strings.NewReplacer(old1, new1, ...).Replace\<close> where every old string is one byte:
  each byte of the argument that is an old string is replaced by its new string (the
  first pair in argument order), every other byte is kept.
\<close>

fun Replace :: "(char \<times> string) list \<Rightarrow> string \<Rightarrow> string" where
  "Replace oldnew [] = []"
| "Replace oldnew (c # s) =
     (case map_of oldnew c of None \<Rightarrow> [c] | Some new \<Rightarrow> new) @ Replace oldnew s"

subsection \<open>Escaping for Crate SQL\<close>

definition escaper :: "(char \<times> string) list" where
  "escaper =
     [(CHR 0x5C, [CHR 0x5C, CHR 0x5C]),
      (CHR 0x22, [CHR 0x5C, CHR 0x22]),
      (CHR 0x27, [CHR 0x5C, CHR 0x27])]"

definition escapeLabelName :: "string \<Rightarrow> string" where
  "escapeLabelName s = [CHR 0x22, CHR ''l''] @ Replace escaper s @ [CHR 0x22]"

definition escapeLabelValue :: "string \<Rightarrow> string" where
  "escapeLabelValue s = [CHR 0x27] @ Replace escaper s @ [CHR 0x27]"

text \<open>
  Modelled from the spec: the parser of the store is not in the sources. Section 4.1
  describes the results of the escaper as a quoted SQL identifier and a quoted SQL string
  literal in which backslashes and embedded quote characters are escaped. A reader of such
  a literal, in these words: after the opening quote, a backslash stands for the character
  after it, the first quote without a backslash before it ends the literal, and any other
  character stands for itself. The reader returns the text of the literal and the input
  that follows it; there is no result when the input does not start with the quote, ends
  before the closing quote, or ends right after a backslash.
\<close>

fun spec_readBody :: "char \<Rightarrow> string \<Rightarrow> (string \<times> string) option" where
  "spec_readBody q [] = None"
| "spec_readBody q [c] = (if c = q then Some ([], []) else None)"
| "spec_readBody q (c # d # s) =
     (if c = q then Some ([], d # s)
      else if c = CHR 0x5C
      then map_option (\<lambda>(body, rest). (d # body, rest)) (spec_readBody q s)
      else map_option (\<lambda>(body, rest). (c # body, rest)) (spec_readBody q (d # s)))"

definition spec_readLiteral :: "char \<Rightarrow> string \<Rightarrow> (string \<times> string) option" where
  "spec_readLiteral q s =
     (case s of [] \<Rightarrow> None | c # s' \<Rightarrow> if c = q then spec_readBody q s' else None)"

text \<open>
  \<open>strconv.FormatInt(i, 10)\<close>, which \<open>fmt.Sprintf\<close> applies to an integer under the
  verb \<open>%d\<close>: the decimal digits, after a minus sign when the integer is negative.
\<close>

fun FormatUint :: "nat \<Rightarrow> string" where
  "FormatUint n =
     (if n < 10 then [''0123456789'' ! n]
      else FormatUint (n div 10) @ [''0123456789'' ! (n mod 10)])"

declare FormatUint.simps [simp del]

definition FormatInt :: "int \<Rightarrow> string" where
  "FormatInt i = (if i < 0 then CHR ''-'' # FormatUint (nat (- i)) else FormatUint (nat i))"

subsection \<open>The query of a remote read (package remote of Prometheus)\<close>

text \<open>
  Modelled from the spec: the declarations of \<open>remote.Query\<close>,
  \<open>remote.LabelMatcher\<close> and \<open>remote.MatchType\<close> (generated protobuf code of
  Prometheus) are not in the sources. By the data model of the specification a matcher has
  a name, a value and one of four match types, and a query has a sequence of matchers and
  a time range in milliseconds. The fields are those the source reads (\<open>m.Type\<close>,
  \<open>m.Name\<close>, \<open>m.Value\<close>; the two other records below have fields of the same
  names, so each field carries the name of its record).
\<close>

datatype MatchType = EQUAL | NOT_EQUAL | REGEX_MATCH | REGEX_NO_MATCH

record LabelMatcher =
  matcherType :: MatchType
  matcherName :: string
  matcherValue :: string

record Query =
  StartTimestampMs :: int64
  EndTimestampMs :: int64
  Matchers :: "LabelMatcher list"

subsection \<open>queryToSQL\<close>

text \<open>
  The regular-expression engine is the one of the Go standard library; the translation
  takes \<open>regexp.MatchString\<close> as a parameter. \<open>MatchString pattern s\<close> is \<open>Inl err\<close>
  when the pattern does not compile and \<open>Inr matched\<close> otherwise.

  The loop over \<open>q.Matchers\<close>: \<open>selectors\<close> is the slice built so far. A pattern that does
  not compile leaves the loop, and the function, with the error.
\<close>

fun queryToSQL_matchers ::
  "(string \<Rightarrow> string \<Rightarrow> error + bool) \<Rightarrow> LabelMatcher list \<Rightarrow> string list
    \<Rightarrow> error + string list" where
  "queryToSQL_matchers MatchString [] selectors = Inr selectors"
| "queryToSQL_matchers MatchString (m # ms) selectors =
     (case matcherType m of
        EQUAL \<Rightarrow>
          if matcherValue m = ''''
          then queryToSQL_matchers MatchString ms
                 (selectors @ [''('' @ escapeLabelName (matcherName m) @ '' IS NULL)''])
          else queryToSQL_matchers MatchString ms
                 (selectors @ [''('' @ escapeLabelName (matcherName m) @ '' = ''
                    @ escapeLabelValue (matcherValue m) @ '')''])
      | NOT_EQUAL \<Rightarrow>
          if matcherValue m = ''''
          then queryToSQL_matchers MatchString ms
                 (selectors @ [''('' @ escapeLabelName (matcherName m) @ '' IS NOT NULL)''])
          else queryToSQL_matchers MatchString ms
                 (selectors @ [''('' @ escapeLabelName (matcherName m) @ '' != ''
                    @ escapeLabelValue (matcherValue m) @ '')''])
      | REGEX_MATCH \<Rightarrow>
          (let re = ''^(?:'' @ matcherValue m @ '')$'' in
           case MatchString re '''' of
             Inl err \<Rightarrow> Inl err
           | Inr matchesEmpty \<Rightarrow>
               if matchesEmpty
               then queryToSQL_matchers MatchString ms
                      (selectors @ [''('' @ escapeLabelName (matcherName m) @ '' ~ ''
                         @ escapeLabelValue re @ '' OR '' @ escapeLabelName (matcherName m)
                         @ '' IS NULL)''])
               else queryToSQL_matchers MatchString ms
                      (selectors @ [''('' @ escapeLabelName (matcherName m) @ '' ~ ''
                         @ escapeLabelValue re @ '')'']))
      | REGEX_NO_MATCH \<Rightarrow>
          (let re = ''^(?:'' @ matcherValue m @ '')$'' in
           case MatchString re '''' of
             Inl err \<Rightarrow> Inl err
           | Inr matchesEmpty \<Rightarrow>
               if matchesEmpty
               then queryToSQL_matchers MatchString ms
                      (selectors @ [''('' @ escapeLabelName (matcherName m) @ '' !~ ''
                         @ escapeLabelValue re @ '')''])
               else queryToSQL_matchers MatchString ms
                      (selectors @ [''('' @ escapeLabelName (matcherName m) @ '' !~ ''
                         @ escapeLabelValue re @ '' OR '' @ escapeLabelName (matcherName m)
                         @ '' IS NULL)''])))"

text \<open>
  The function returns the pair \<open>(string, error)\<close> of the source; \<open>None\<close> is the
  \<open>nil\<close> error.
\<close>

definition queryToSQL ::
  "(string \<Rightarrow> string \<Rightarrow> error + bool) \<Rightarrow> Query \<Rightarrow> string \<times> error option" where
  "queryToSQL MatchString q =
     (case queryToSQL_matchers MatchString (Matchers q) [] of
        Inl err \<Rightarrow> ('''', Some err)
      | Inr selectors \<Rightarrow>
          (let selectors = selectors @ [''(timestamp <= '' @ FormatInt (EndTimestampMs q) @ '')''];
               selectors = selectors @ [''(timestamp >= '' @ FormatInt (StartTimestampMs q) @ '')'']
           in (''SELECT * from metrics WHERE '' @ Join selectors '' AND ''
                 @ '' ORDER BY timestamp'', None)))"

text \<open>
  The table of the specification (section 4.2), in its words: the predicate for one
  matcher, given whether its anchored pattern matches the empty string. \<open>col\<close> is the
  escaped column of the label, \<open>'value'\<close> the escaped literal and \<open>pattern\<close> the
  anchored pattern \<open>^(?:value)$\<close> as an escaped literal.
\<close>

definition spec_anchored :: "string \<Rightarrow> string" where
  "spec_anchored v = ''^(?:'' @ v @ '')$''"

definition spec_predicate :: "bool \<Rightarrow> LabelMatcher \<Rightarrow> string" where
  "spec_predicate matchesEmpty m =
     (let col = escapeLabelName (matcherName m);
          val = escapeLabelValue (matcherValue m);
          pattern = escapeLabelValue (spec_anchored (matcherValue m))
      in case matcherType m of
           EQUAL \<Rightarrow>
             if matcherValue m = '''' then ''('' @ col @ '' IS NULL)''
             else ''('' @ col @ '' = '' @ val @ '')''
         | NOT_EQUAL \<Rightarrow>
             if matcherValue m = '''' then ''('' @ col @ '' IS NOT NULL)''
             else ''('' @ col @ '' != '' @ val @ '')''
         | REGEX_MATCH \<Rightarrow>
             if matchesEmpty then ''('' @ col @ '' ~ '' @ pattern @ '' OR '' @ col @ '' IS NULL)''
             else ''('' @ col @ '' ~ '' @ pattern @ '')''
         | REGEX_NO_MATCH \<Rightarrow>
             if matchesEmpty then ''('' @ col @ '' !~ '' @ pattern @ '')''
             else ''('' @ col @ '' !~ '' @ pattern @ '' OR '' @ col @ '' IS NULL)'')"

text \<open>A matcher whose value is compiled as a regular expression.\<close>

definition isRegex :: "LabelMatcher \<Rightarrow> bool" where
  "isRegex m = (matcherType m = REGEX_MATCH \<or> matcherType m = REGEX_NO_MATCH)"

text \<open>
  For closed examples, the verdicts of the Go engine on the patterns the examples use:
  anchored, \<open>.*\<close> matches the empty string, \<open>a.+\<close> does not, and an opening
  parenthesis alone does not compile; the pattern \<open>)|(\<close> does not compile, but
  anchored it is \<open>^(?:)|()$\<close>, which compiles and matches the empty string. (Every
  other pattern is taken to compile and not to match; the examples do not use one.)
\<close>

definition exampleMatchString :: "string \<Rightarrow> string \<Rightarrow> error + bool" where
  "exampleMatchString pattern s =
     (if pattern = ''^(?:.*)$'' then Inr True
      else if pattern = ''^(?:a.+)$'' then Inr False
      else if pattern = ''^(?:)|()$'' then Inr True
      else if pattern = ''^(?:()$''
      then Inl (Error (''error parsing regexp: missing closing ): ''
                  @ [CHR 0x60] @ ''^(?:()$'' @ [CHR 0x60]))
      else if pattern = '')|(''
      then Inl (Error (''error parsing regexp: unexpected ): ''
                  @ [CHR 0x60] @ '')|('' @ [CHR 0x60]))
      else Inr False)"

subsection \<open>Values in rows, numbers in JSON, and maps\<close>

text \<open>
  \<open>json.Number.Int64\<close> is \<open>strconv.ParseInt(s, 10, 64)\<close>, which reads an optional
  sign and hands the rest to \<open>strconv.ParseUint(s, 10, 64)\<close>. Both return a value
  together with the error (here the \<open>Err\<close> field of the \<open>NumError\<close>):
  \<open>ErrSyntax\<close> or \<open>ErrRange\<close>.

  The loop of \<open>ParseUint\<close> goes over the bytes from the left, \<open>n\<close> being the number
  read so far, and stops at the first byte that is not a digit (0 and a syntax error) or
  that takes the number beyond 64 bits (the largest \<open>uint64\<close> and a range error).
  \<open>ParseInt\<close> gives 0 on a syntax error and the nearest bound of \<open>int64\<close> when
  the number is out of range.
\<close>

definition ErrSyntax :: error where
  "ErrSyntax = Error ''invalid syntax''"

definition ErrRange :: error where
  "ErrRange = Error ''value out of range''"

definition isDigit :: "char \<Rightarrow> bool" where
  "isDigit c = (CHR ''0'' \<le> c \<and> c \<le> CHR ''9'')"

fun ParseUint_digits :: "string \<Rightarrow> nat \<Rightarrow> nat \<times> error option" where
  "ParseUint_digits [] n = (n, None)"
| "ParseUint_digits (d # s) n =
     (if \<not> isDigit d then (0, Some ErrSyntax)
      else if (2 ^ 64 - 1) div 10 + 1 \<le> n then (2 ^ 64 - 1, Some ErrRange)
      else
        (let n = n * 10;
             n1 = n + (of_char d - 48)
         in if 2 ^ 64 - 1 < n1 then (2 ^ 64 - 1, Some ErrRange)
            else ParseUint_digits s n1))"

definition ParseUint :: "string \<Rightarrow> nat \<times> error option" where
  "ParseUint s = (if s = [] then (0, Some ErrSyntax) else ParseUint_digits s 0)"

definition ParseInt :: "string \<Rightarrow> int64 \<times> error option" where
  "ParseInt s0 =
     (if s0 = [] then (0, Some ErrSyntax)
      else
        (let neg = (hd s0 = CHR ''-'');
             s = (if hd s0 = CHR ''+'' \<or> hd s0 = CHR ''-'' then tl s0 else s0)
         in case ParseUint s of (un, err) \<Rightarrow>
              if err \<noteq> None \<and> err \<noteq> Some ErrRange then (0, err)
              else if \<not> neg \<and> 2 ^ 63 \<le> un then (2 ^ 63 - 1, Some ErrRange)
              else if neg \<and> 2 ^ 63 < un then (- (2 ^ 63), Some ErrRange)
              else (if neg then - int un else int un, None)))"

definition Number_Int64 :: "string \<Rightarrow> int64 \<times> error option" where
  "Number_Int64 s = ParseInt s"

text \<open>
  A value of type \<open>interface{}\<close> in a row of the response or in an argument row of the
  request, by its dynamic type: \<open>nil\<close>, \<open>string\<close>, \<open>json.Number\<close> (the digits of a
  JSON number, as the decoder keeps them under \<open>UseNumber\<close>), \<open>int64\<close>, \<open>bool\<close>,
  \<open>[]interface{}\<close> and \<open>map[string]interface{}\<close>.
\<close>

datatype iface =
    GoNil
  | Str string
  | Num string
  | I64 int64
  | Boolean bool
  | Arr "iface list"
  | Obj "(string \<times> iface) list"

text \<open>
  A Go map is modelled by its entries in ascending key order, one entry for a key: the
  source never depends on the order in which \<open>range\<close> visits a map (it sorts the keys
  it collects). \<open>map_assign m k v\<close> is \<open>m[k] = v\<close>; \<open>map_of m k\<close> is the
  two-valued \<open>v, ok := m[k]\<close>; \<open>map_access m k zero\<close> is the one-valued \<open>m[k]\<close>,
  the zero value of the element type for a missing key.
\<close>

fun map_assign :: "('k::linorder \<times> 'v) list \<Rightarrow> 'k \<Rightarrow> 'v \<Rightarrow> ('k \<times> 'v) list" where
  "map_assign [] k v = [(k, v)]"
| "map_assign ((k', v') # m) k v =
     (if k < k' then (k, v) # (k', v') # m
      else if k = k' then (k, v) # m
      else (k', v') # map_assign m k v)"

definition map_access :: "('k \<times> 'v) list \<Rightarrow> 'k \<Rightarrow> 'v \<Rightarrow> 'v" where
  "map_access m k zero = (case map_of m k of None \<Rightarrow> zero | Some v \<Rightarrow> v)"

subsection \<open>Time series (package remote of Prometheus) and the messages of the store\<close>

text \<open>
  Modelled from the spec: the declarations of \<open>remote.LabelPair\<close>,
  \<open>remote.Sample\<close>, \<open>remote.TimeSeries\<close> and \<open>remote.WriteRequest\<close> (generated
  protobuf code of Prometheus) are not in the sources. A sample has a value and a
  timestamp in milliseconds; a time series has labels (\<open>l.Name\<close>, \<open>l.Value\<close>) and
  samples (\<open>s.Value\<close>, \<open>s.TimestampMs\<close>); a write request has time series. The
  request to and the response of the store are the structs \<open>crateRequest\<close> and
  \<open>crateResponse\<close> of the source.
\<close>

record LabelPair =
  labelName :: string
  labelValue :: string

record Sample =
  sampleValue :: float64
  sampleTimestampMs :: int64

record TimeSeries =
  Labels :: "LabelPair list"
  Samples :: "Sample list"

record WriteRequest =
  Timeseries :: "TimeSeries list"

record crateRequest =
  Stmt :: string
  BulkArgs :: "iface list list"

record crateResponse =
  Cols :: "string list"
  Rows :: "iface list list"

text \<open>A \<open>model.Metric\<close> is a map from label names to label values.\<close>

type_synonym Metric = "(string \<times> string) list"

subsection \<open>responseToTimeseries\<close>

text \<open>
  The loop over the cells of one row: \<open>i\<close> is the index of the cell, and the state is
  the metric, the value \<open>v\<close> and the timestamp \<open>t\<close> of the row so far.
  \<open>data.Cols[i]\<close> panics when the row has more cells than the table has columns,
  \<open>column[0]\<close> when the column name is empty, and the type assertions
  \<open>value.(string)\<close> and \<open>value.(json.Number)\<close> when the cell has another dynamic type.
  The error of \<open>Int64()\<close> is discarded, as the source does.
\<close>

fun responseToTimeseries_cells ::
  "string list \<Rightarrow> iface list \<Rightarrow> nat \<Rightarrow> Metric \<times> float64 \<times> int64
    \<Rightarrow> panic + Metric \<times> float64 \<times> int64" where
  "responseToTimeseries_cells cols [] i (metric, v, t) = Inr (metric, v, t)"
| "responseToTimeseries_cells cols (value # row) i (metric, v, t) =
     (if length cols \<le> i then Inl IndexOutOfRange
      else
        (let column = cols ! i
         in if column = [] then Inl IndexOutOfRange
            else if hd column = CHR ''l'' \<and> value \<noteq> GoNil then
              (case value of
                 Str s \<Rightarrow>
                   responseToTimeseries_cells cols row (Suc i)
                     (map_assign metric (tl column) s, v, t)
               | _ \<Rightarrow> Inl InterfaceConversion)
            else if column = ''timestamp'' then
              (case value of
                 Num n \<Rightarrow>
                   responseToTimeseries_cells cols row (Suc i)
                     (metric, v, fst (Number_Int64 n))
               | _ \<Rightarrow> Inl InterfaceConversion)
            else if column = ''valueRaw'' then
              (case value of
                 Num n \<Rightarrow>
                   (let val = fst (Number_Int64 n)
                    in responseToTimeseries_cells cols row (Suc i)
                         (metric, Float64frombits (uint64 val), t))
               | _ \<Rightarrow> Inl InterfaceConversion)
            else responseToTimeseries_cells cols row (Suc i) (metric, v, t)))"

text \<open>
  One row: the zero values of \<open>metric\<close>, \<open>v\<close> and \<open>t\<close>, then the loop over its cells.
\<close>

definition responseToTimeseries_row ::
  "string list \<Rightarrow> iface list \<Rightarrow> panic + Metric \<times> float64 \<times> int64" where
  "responseToTimeseries_row cols row =
     responseToTimeseries_cells cols row 0 ([], Float64frombits 0, 0)"

text \<open>
  The loop over the rows. \<open>String\<close> is \<open>model.Metric.String\<close> (package model of
  Prometheus, outside the sources), the key of the map \<open>timeseries\<close>. The map holds
  pointers: appending to \<open>ts.Samples\<close> changes the series the map holds under the key,
  so the model stores the series back after the append.
\<close>

fun responseToTimeseries_rows ::
  "(Metric \<Rightarrow> string) \<Rightarrow> string list \<Rightarrow> iface list list \<Rightarrow> (string \<times> TimeSeries) list
    \<Rightarrow> panic + (string \<times> TimeSeries) list" where
  "responseToTimeseries_rows String cols [] timeseries = Inr timeseries"
| "responseToTimeseries_rows String cols (row # rows) timeseries =
     (case responseToTimeseries_row cols row of
        Inl p \<Rightarrow> Inl p
      | Inr (metric, v, t) \<Rightarrow>
          (let ts =
                 (case map_of timeseries (String metric) of
                    None \<Rightarrow>
                      (let labelnames = sort (map fst metric)
                       in \<lparr>Labels =
                              map (\<lambda>k. \<lparr>labelName = k, labelValue = map_access metric k ''''\<rparr>)
                                labelnames,
                            Samples = []\<rparr>)
                  | Some ts \<Rightarrow> ts);
               ts = ts\<lparr>Samples := Samples ts @ [\<lparr>sampleValue = v, sampleTimestampMs = t\<rparr>]\<rparr>
           in responseToTimeseries_rows String cols rows
                (map_assign timeseries (String metric) ts)))"

text \<open>
  The last loop: the series of the map in the order of \<open>names\<close>. The map holds
  pointers, so \<open>timeseries[name]\<close> is \<open>nil\<close> for a missing key and reading its
  \<open>Samples\<close> (for the metrics registry, whose observation is left out) would panic.
\<close>

fun responseToTimeseries_resp ::
  "(string \<times> TimeSeries) list \<Rightarrow> string list \<Rightarrow> TimeSeries list \<Rightarrow> panic + TimeSeries list" where
  "responseToTimeseries_resp timeseries [] resp = Inr resp"
| "responseToTimeseries_resp timeseries (name # names) resp =
     (case map_of timeseries name of
        None \<Rightarrow> Inl NilDereference
      | Some ts \<Rightarrow> responseToTimeseries_resp timeseries names (resp @ [ts]))"

definition responseToTimeseries ::
  "(Metric \<Rightarrow> string) \<Rightarrow> crateResponse \<Rightarrow> panic + TimeSeries list" where
  "responseToTimeseries String data =
     (case responseToTimeseries_rows String (Cols data) (Rows data) [] of
        Inl p \<Rightarrow> Inl p
      | Inr timeseries \<Rightarrow>
          (let names = sort (map fst timeseries)
           in responseToTimeseries_resp timeseries names []))"

subsection \<open>runQuery\<close>

text \<open>
  The response of the HTTP client, as far as \<open>runQuery\<close> reads it.
\<close>

record Response =
  StatusCode :: int
  Body :: string

text \<open>The request of line 213: the statement alone, no argument rows.\<close>

definition runQuery_request :: "string \<Rightarrow> crateRequest" where
  "runQuery_request query = \<lparr>Stmt = query, BulkArgs = []\<rparr>"

text \<open>
  \<open>json.Marshal\<close>, the \<open>Post\<close> of the HTTP client to the URL of the adapter and the
  decoding of the body by \<open>json.Decoder\<close> are parameters; each returns its result
  together with an error, as in Go, and \<open>None\<close> is the \<open>nil\<close> error. The function
  returns the pair \<open>([]*remote.TimeSeries, error)\<close>; the \<open>nil\<close> slice is the empty
  list. As in the source, one variable \<open>err\<close> holds the latest error: where the status
  is not 200 the function returns the \<open>err\<close> that \<open>Post\<close> has just returned.
  (Logging, the timer and the counters of the metrics registry are left out.)
\<close>

definition runQuery ::
  "(string \<Rightarrow> string \<Rightarrow> error + bool) \<Rightarrow> (Metric \<Rightarrow> string)
    \<Rightarrow> (crateRequest \<Rightarrow> string \<times> error option)
    \<Rightarrow> (string \<Rightarrow> Response \<times> error option)
    \<Rightarrow> (string \<Rightarrow> crateResponse \<times> error option)
    \<Rightarrow> Query \<Rightarrow> panic + TimeSeries list \<times> error option" where
  "runQuery MatchString String Marshal Post Decode q =
     (case queryToSQL MatchString q of (query, err) \<Rightarrow>
        if err \<noteq> None then Inr ([], err)
        else
          (let request = runQuery_request query
           in case Marshal request of (jsonRequest, err) \<Rightarrow>
                if err \<noteq> None then Inr ([], err)
                else
                  (case Post jsonRequest of (result, err) \<Rightarrow>
                     if err \<noteq> None then Inr ([], err)
                     else if StatusCode result \<noteq> 200 then Inr ([], err)
                     else
                       (case Decode (Body result) of (data, err) \<Rightarrow>
                          if err \<noteq> None then Inr ([], err)
                          else
                            (case responseToTimeseries String data of
                               Inl p \<Rightarrow> Inl p
                             | Inr timeseries \<Rightarrow> Inr (timeseries, None))))))"

subsection \<open>writesToCrateRequest\<close>

text \<open>
  \<open>Sprintf_f\<close> is \<open>fmt.Sprintf("%f", v)\<close>, the decimal text of a \<open>float64\<close> (a
  parameter: the formatting of floating-point numbers is the standard library's).
  \<open>labelsUsed\<close> is a map with elements of the empty struct type, here the unit type.
  (The observation of the sample counts by the metrics registry is left out.)
\<close>

definition writesToCrateRequest_args ::
  "(float64 \<Rightarrow> string) \<Rightarrow> string list \<Rightarrow> Metric \<Rightarrow> Sample \<Rightarrow> iface list" where
  "writesToCrateRequest_args Sprintf_f labels metric s =
     (let args = fold (\<lambda>l args.
                   if map_access metric l '''' = '''' then args @ [GoNil]
                   else args @ [Str (map_access metric l '''')]) labels [];
          args = args @ [Str (Sprintf_f (sampleValue s))];
          args = args @ [I64 (int64 (Float64bits (sampleValue s)))];
          args = args @ [I64 (sampleTimestampMs s)]
      in args)"

definition writesToCrateRequest ::
  "(float64 \<Rightarrow> string) \<Rightarrow> WriteRequest \<Rightarrow> crateRequest" where
  \<open>writesToCrateRequest Sprintf_f req =
     (let labelsUsed =
            fold (\<lambda>ts labelsUsed.
                    fold (\<lambda>l labelsUsed. map_assign labelsUsed (labelName l) ())
                      (Labels ts) labelsUsed)
              (Timeseries req) [];
          labels = sort (map fst labelsUsed);
          escapedLabels = fold (\<lambda>l escapedLabels. escapedLabels @ [escapeLabelName l]) labels [];
          placeholders = Repeat ''?, '' (length labels);
          columns = Join escapedLabels '', '';
          stmt = ''INSERT INTO metrics ('' @ columns
                   @ '', "value", "valueRaw", "timestamp") VALUES ('' @ placeholders
                   @ '' ?, ?, ?)'';
          bulkArgs =
            fold (\<lambda>ts bulkArgs.
                    (let metric = fold (\<lambda>l metric. map_assign metric (labelName l) (labelValue l))
                                    (Labels ts) []
                     in fold (\<lambda>s bulkArgs.
                                bulkArgs @ [writesToCrateRequest_args Sprintf_f labels metric s])
                          (Samples ts) bulkArgs))
              (Timeseries req) []
      in \<lparr>Stmt = stmt, BulkArgs = bulkArgs\<rparr>)\<close>

subsection \<open>Library functions for closed examples\<close>

text \<open>
  For closed examples: \<open>model.Metric.String\<close> on a metric without the label
  \<open>__name__\<close> whose values need no escaping (the texts \<open>name="value"\<close> of the
  pairs, sorted, in braces), and \<open>Sprintf("%f", v)\<close> on 1.5, 1, the two infinities and a NaN (and on
  0 for every other value; the examples do not use one).
\<close>

definition exampleString :: "Metric \<Rightarrow> string" where
  \<open>exampleString metric =
     ''{'' @ Join (sort (map (\<lambda>(k, v). k @ ''="'' @ v @ ''"'') metric)) '', '' @ ''}''\<close>

definition exampleSprintf_f :: "float64 \<Rightarrow> string" where
  "exampleSprintf_f v =
     (if v = Float64frombits 0x3FF8000000000000 then ''1.500000''
      else if v = Float64frombits 0x3FF0000000000000 then ''1.000000''
      else if v = Float64frombits 0x7FF0000000000000 then ''+Inf''
      else if v = Float64frombits 0xFFF0000000000000 then ''-Inf''
      else if v = Float64frombits 0x7FF8000000000001 then ''NaN''
      else ''0.000000'')"

subsection \<open>The write builder and the result assembler in the words of the specification\<close>

text \<open>
  The words of the specification for the write builder (section 4.5): the sorted union of
  the label names of the batch, and what an argument row carries for a label of the
  union: the series' value for that label if present and non-empty, else the NULL marker.
  (Where a series names a label twice, its value is the last one.)
\<close>

definition spec_labelUnion :: "WriteRequest \<Rightarrow> string list" where
  "spec_labelUnion req =
     sort (remdups (concat (map (\<lambda>ts. map labelName (Labels ts)) (Timeseries req))))"

definition spec_labelArg :: "TimeSeries \<Rightarrow> string \<Rightarrow> iface" where
  "spec_labelArg ts l =
     (case filter (\<lambda>p. labelName p = l) (Labels ts) of
        [] \<Rightarrow> GoNil
      | p # ps \<Rightarrow>
          if labelValue (last (p # ps)) = '''' then GoNil
          else Str (labelValue (last (p # ps))))"

text \<open>
  The words of the specification for the result assembler (section 4.4), over the rows as
  decoded by the loop over the cells (label set, value, timestamp): the key of a row; its
  sample; the labels of a series, sorted by name; and the series of a key, which has the
  labels of the first row with that key and the samples of all rows with that key, in row
  order.
\<close>

definition spec_key :: "(Metric \<Rightarrow> string) \<Rightarrow> Metric \<times> float64 \<times> int64 \<Rightarrow> string" where
  "spec_key String d = (case d of (metric, v, t) \<Rightarrow> String metric)"

definition spec_sample :: "Metric \<times> float64 \<times> int64 \<Rightarrow> Sample" where
  "spec_sample d = (case d of (metric, v, t) \<Rightarrow> \<lparr>sampleValue = v, sampleTimestampMs = t\<rparr>)"

definition spec_labels :: "Metric \<Rightarrow> LabelPair list" where
  "spec_labels metric =
     map (\<lambda>k. \<lparr>labelName = k, labelValue = map_access metric k ''''\<rparr>) (sort (map fst metric))"

definition spec_series ::
  "(Metric \<Rightarrow> string) \<Rightarrow> (Metric \<times> float64 \<times> int64) list \<Rightarrow> string \<Rightarrow> TimeSeries" where
  "spec_series String decoded key =
     (let group = filter (\<lambda>d. spec_key String d = key) decoded
      in \<lparr>Labels = (case group of [] \<Rightarrow> [] | (metric, v, t) # _ \<Rightarrow> spec_labels metric),
          Samples = map spec_sample group\<rparr>)"

text \<open>
  The tables on which the assembler does not panic. A cell is in order when its column has
  a name and the cell has the dynamic type the loop asserts: a string for a non-null cell
  of a column that starts with \<open>l\<close>, a JSON number for any other cell of the columns
  \<open>timestamp\<close> and \<open>valueRaw\<close>. A row is in order when it has no more cells than
  the table has columns and all its cells are in order.
\<close>

definition isStr :: "iface \<Rightarrow> bool" where
  "isStr cell = (case cell of Str s \<Rightarrow> True | _ \<Rightarrow> False)"

definition isNum :: "iface \<Rightarrow> bool" where
  "isNum cell = (case cell of Num n \<Rightarrow> True | _ \<Rightarrow> False)"

definition cellOK :: "string \<Rightarrow> iface \<Rightarrow> bool" where
  "cellOK column cell =
     (column \<noteq> [] \<and>
      (if hd column = CHR ''l'' \<and> cell \<noteq> GoNil then isStr cell
       else if column = ''timestamp'' \<or> column = ''valueRaw'' then isNum cell
       else True))"

definition rowOK :: "string list \<Rightarrow> iface list \<Rightarrow> bool" where
  "rowOK cols row =
     (length row \<le> length cols \<and> list_all (\<lambda>(column, cell). cellOK column cell) (zip cols row))"

definition wellShaped :: "crateResponse \<Rightarrow> bool" where
  "wellShaped data = list_all (rowOK (Cols data)) (Rows data)"

section \<open>Properties\<close>

subsection \<open>The escaper\<close>

lemma Replace_escaper_Cons:
  "Replace escaper (c # s) =
     (if c = CHR 0x5C \<or> c = CHR 0x22 \<or> c = CHR 0x27 then [CHR 0x5C, c] else [c])
       @ Replace escaper s"
  by (simp add: escaper_def)

lemma spec_readBody_plain:
  "c \<noteq> q \<Longrightarrow> c \<noteq> CHR 0x5C \<Longrightarrow> s \<noteq> [] \<Longrightarrow>
   spec_readBody q (c # s) = map_option (\<lambda>(body, rest). (c # body, rest)) (spec_readBody q s)"
  by (cases s) simp_all

lemma spec_readBody_escaped:
  "q \<noteq> CHR 0x5C \<Longrightarrow>
   spec_readBody q (CHR 0x5C # d # s) = map_option (\<lambda>(body, rest). (d # body, rest)) (spec_readBody q s)"
  by simp

lemma spec_readBody_end: "spec_readBody q (q # rest) = Some ([], rest)"
  by (cases rest) simp_all

lemma spec_readBody_Replace:
  assumes "q = CHR 0x22 \<or> q = CHR 0x27"
  shows "spec_readBody q (Replace escaper s @ q # rest) = Some (s, rest)"
proof (induction s)
  case Nil
  show ?case
    by (simp add: spec_readBody_end)
next
  case (Cons c s)
  from assms have q: "q \<noteq> CHR 0x5C"
    by auto
  show ?case
  proof (cases "c = CHR 0x5C \<or> c = CHR 0x22 \<or> c = CHR 0x27")
    case True
    then have "Replace escaper (c # s) @ q # rest = CHR 0x5C # c # (Replace escaper s @ q # rest)"
      by (simp add: Replace_escaper_Cons del: Replace.simps)
    then have "spec_readBody q (Replace escaper (c # s) @ q # rest)
        = map_option (\<lambda>(body, rest). (c # body, rest))
            (spec_readBody q (Replace escaper s @ q # rest))"
      by (simp only: spec_readBody_escaped [OF q])
    also have "\<dots> = Some (c # s, rest)"
      by (simp only: Cons.IH) simp
    finally show ?thesis .
  next
    case False
    with assms have c: "c \<noteq> q" "c \<noteq> CHR 0x5C"
      by auto
    have nonempty: "Replace escaper s @ q # rest \<noteq> []"
      by simp
    from False
    have "Replace escaper (c # s) @ q # rest = c # (Replace escaper s @ q # rest)"
      by (simp add: Replace_escaper_Cons del: Replace.simps)
    then have "spec_readBody q (Replace escaper (c # s) @ q # rest)
        = map_option (\<lambda>(body, rest). (c # body, rest))
            (spec_readBody q (Replace escaper s @ q # rest))"
      by (simp only: spec_readBody_plain [OF c nonempty])
    also have "\<dots> = Some (c # s, rest)"
      by (simp only: Cons.IH) simp
    finally show ?thesis .
  qed
qed

lemma spec_readLiteral_escapeLabelValue:
  "spec_readLiteral (CHR 0x27) (escapeLabelValue s @ rest) = Some (s, rest)"
  using spec_readBody_Replace [of "CHR 0x27" s rest]
  by (simp add: spec_readLiteral_def escapeLabelValue_def)

lemma spec_readLiteral_escapeLabelName:
  "spec_readLiteral (CHR 0x22) (escapeLabelName s @ rest) = Some (CHR ''l'' # s, rest)"
proof -
  have "Replace escaper (CHR ''l'' # s) = CHR ''l'' # Replace escaper s"
    by (simp add: Replace_escaper_Cons del: Replace.simps)
  with spec_readBody_Replace [of "CHR 0x22" "CHR ''l'' # s" rest] show ?thesis
    by (simp add: spec_readLiteral_def escapeLabelName_def del: Replace.simps)
qed

text \<open>
  C9: the escaper puts a backslash before every backslash, double quote and single quote.
  Reading the escaped value as a single-quoted literal, and the escaped name as a
  double-quoted identifier, with whatever text follows it in the statement, ends exactly at
  the closing quote the escaper wrote and gives back the original string (after the marker
  \<open>l\<close> for a name); so the replacement, the escaping of label names and the escaping
  of label values are injective.
\<close>

theorem escaper_roundtrip_injective:
  "spec_readLiteral (CHR 0x27) (escapeLabelValue s @ rest) = Some (s, rest)
   \<and> spec_readLiteral (CHR 0x22) (escapeLabelName s @ rest) = Some (CHR ''l'' # s, rest)
   \<and> (Replace escaper s = Replace escaper t \<longrightarrow> s = t)
   \<and> (escapeLabelName s = escapeLabelName t \<longrightarrow> s = t)
   \<and> (escapeLabelValue s = escapeLabelValue t \<longrightarrow> s = t)"
proof -
  have inj_value: "s = t" if "escapeLabelValue s = escapeLabelValue t" for s t
  proof -
    from that have "spec_readLiteral (CHR 0x27) (escapeLabelValue s @ [])
                      = spec_readLiteral (CHR 0x27) (escapeLabelValue t @ [])"
      by simp
    then show ?thesis
      by (simp only: spec_readLiteral_escapeLabelValue) simp
  qed
  have inj_name: "s = t" if "escapeLabelName s = escapeLabelName t" for s t
  proof -
    from that have "spec_readLiteral (CHR 0x22) (escapeLabelName s @ [])
                      = spec_readLiteral (CHR 0x22) (escapeLabelName t @ [])"
      by simp
    then show ?thesis
      by (simp only: spec_readLiteral_escapeLabelName) simp
  qed
  have inj_replace: "s = t" if "Replace escaper s = Replace escaper t" for s t
  proof -
    from that have "escapeLabelValue s = escapeLabelValue t"
      by (simp only: escapeLabelValue_def)
    then show ?thesis
      by (rule inj_value)
  qed
  show ?thesis
  proof (intro conjI impI)
    show "spec_readLiteral (CHR 0x27) (escapeLabelValue s @ rest) = Some (s, rest)"
      by (rule spec_readLiteral_escapeLabelValue)
    show "spec_readLiteral (CHR 0x22) (escapeLabelName s @ rest) = Some (CHR ''l'' # s, rest)"
      by (rule spec_readLiteral_escapeLabelName)
    show "s = t" if "Replace escaper s = Replace escaper t"
      using that by (rule inj_replace)
    show "s = t" if "escapeLabelName s = escapeLabelName t"
      using that by (rule inj_name)
    show "s = t" if "escapeLabelValue s = escapeLabelValue t"
      using that by (rule inj_value)
  qed
qed

theorem escaper_roundtrip_injective_witness:
  \<open>escapeLabelValue [CHR ''i'', CHR ''t'', CHR 0x27, CHR ''s'', CHR 0x5C]
     = [CHR 0x27, CHR ''i'', CHR ''t'', CHR 0x5C, CHR 0x27, CHR ''s'', CHR 0x5C, CHR 0x5C, CHR 0x27]
   \<and> spec_readLiteral (CHR 0x27)
        ([CHR 0x27, CHR ''i'', CHR ''t'', CHR 0x5C, CHR 0x27, CHR ''s'', CHR 0x5C, CHR 0x5C, CHR 0x27]
           @ '' OR 1'')
     = Some ([CHR ''i'', CHR ''t'', CHR 0x27, CHR ''s'', CHR 0x5C], '' OR 1'')
   \<and> escapeLabelName [CHR ''a'', CHR 0x22, CHR ''b'']
     = [CHR 0x22, CHR ''l'', CHR ''a'', CHR 0x5C, CHR 0x22, CHR ''b'', CHR 0x22]
   \<and> spec_readLiteral (CHR 0x22)
        [CHR 0x22, CHR ''l'', CHR ''a'', CHR 0x5C, CHR 0x22, CHR ''b'', CHR 0x22]
     = Some ([CHR ''l'', CHR ''a'', CHR 0x22, CHR ''b''], [])
   \<and> escapeLabelValue [CHR 0x5C, CHR 0x27] \<noteq> escapeLabelValue [CHR 0x27]\<close>
  using escaper_roundtrip_injective
      [of "[CHR ''i'', CHR ''t'', CHR 0x27, CHR ''s'', CHR 0x5C]" "'' OR 1''" "[]"]
    escaper_roundtrip_injective [of "[CHR ''a'', CHR 0x22, CHR ''b'']" "[]" "[]"]
    escaper_roundtrip_injective [of "[CHR 0x5C, CHR 0x27]" "[]" "[CHR 0x27]"]
  by (simp add: escapeLabelValue_def escapeLabelName_def escaper_def)


subsection \<open>Translating the matchers\<close>

lemma queryToSQL_matchers_step:
  "queryToSQL_matchers rx (m # ms) sels =
     (if isRegex m then
        (case rx (spec_anchored (matcherValue m)) '''' of
           Inl err \<Rightarrow> Inl err
         | Inr b \<Rightarrow> queryToSQL_matchers rx ms (sels @ [spec_predicate b m]))
      else queryToSQL_matchers rx ms (sels @ [spec_predicate False m]))"
  by (cases "matcherType m")
    (simp_all add: isRegex_def spec_predicate_def spec_anchored_def Let_def split: sum.split)

lemma queryToSQL_matchers_ok:
  "\<forall>m\<in>set ms. isRegex m \<longrightarrow> (\<exists>b. rx (spec_anchored (matcherValue m)) '''' = Inr b) \<Longrightarrow>
   queryToSQL_matchers rx ms sels =
     Inr (sels @ map (\<lambda>m. spec_predicate (rx (spec_anchored (matcherValue m)) '''' = Inr True) m) ms)"
proof (induction ms arbitrary: sels)
  case Nil
  show ?case by simp
next
  case (Cons m ms)
  have regex_free: "spec_predicate b m = spec_predicate c m" if "\<not> isRegex m" for b c
    using that by (cases "matcherType m") (simp_all add: isRegex_def spec_predicate_def)
  show ?case
  proof (cases "isRegex m")
    case True
    with Cons.prems obtain b where b: "rx (spec_anchored (matcherValue m)) '''' = Inr b"
      by auto
    with True Cons.prems show ?thesis
      by (simp add: queryToSQL_matchers_step Cons.IH del: queryToSQL_matchers.simps)
  next
    case False
    with Cons.prems show ?thesis
      by (simp add: queryToSQL_matchers_step Cons.IH regex_free [OF False, of False]
          del: queryToSQL_matchers.simps)
  qed
qed

lemma queryToSQL_matchers_err:
  "m \<in> set ms \<Longrightarrow> isRegex m \<Longrightarrow> rx (spec_anchored (matcherValue m)) '''' = Inl e \<Longrightarrow>
   \<exists>e' m'. queryToSQL_matchers rx ms sels = Inl e' \<and> m' \<in> set ms \<and> isRegex m'
     \<and> rx (spec_anchored (matcherValue m')) '''' = Inl e'"
proof (induction ms arbitrary: sels)
  case Nil
  then show ?case by simp
next
  case (Cons a ms)
  show ?case
  proof (cases "isRegex a \<and> (\<exists>e'. rx (spec_anchored (matcherValue a)) '''' = Inl e')")
    case True
    then obtain e' where "rx (spec_anchored (matcherValue a)) '''' = Inl e'"
      by blast
    with True have "queryToSQL_matchers rx (a # ms) sels = Inl e'"
      by (simp add: queryToSQL_matchers_step del: queryToSQL_matchers.simps)
    with True \<open>rx (spec_anchored (matcherValue a)) '''' = Inl e'\<close> show ?thesis
      by (intro exI [of _ e'] exI [of _ a]) simp
  next
    case False
    with Cons.prems have "m \<in> set ms"
      by auto
    from Cons.IH [OF this Cons.prems(2,3)] have IH:
      "\<exists>e' m'. queryToSQL_matchers rx ms sels' = Inl e' \<and> m' \<in> set ms \<and> isRegex m'
         \<and> rx (spec_anchored (matcherValue m')) '''' = Inl e'" for sels'
      by blast
    have "\<exists>sels'. queryToSQL_matchers rx (a # ms) sels = queryToSQL_matchers rx ms sels'"
    proof (cases "isRegex a")
      case True
      with False obtain b where "rx (spec_anchored (matcherValue a)) '''' = Inr b"
        by (cases "rx (spec_anchored (matcherValue a)) ''''") auto
      with True show ?thesis
        by (auto simp: queryToSQL_matchers_step simp del: queryToSQL_matchers.simps)
    next
      case False
      then show ?thesis
        by (auto simp: queryToSQL_matchers_step simp del: queryToSQL_matchers.simps)
    qed
    then obtain sels' where
      "queryToSQL_matchers rx (a # ms) sels = queryToSQL_matchers rx ms sels'"
      by blast
    with IH [of sels'] show ?thesis
      by auto
  qed
qed

text \<open>
  C1: when the patterns of the regular-expression matchers compile, the loop of
  \<open>queryToSQL\<close> yields exactly one predicate for every matcher, in matcher order, and
  each is the entry of the specification's table for the matcher's type and value (with
  the anchored pattern \<open>^(?:value)$\<close> tried on the empty string for the two
  regular-expression types); every predicate starts with an opening and ends with a
  closing parenthesis.
\<close>

theorem queryToSQL_matcher_predicates:
  assumes "\<forall>m\<in>set (Matchers q). isRegex m \<longrightarrow>
             (\<exists>b. MatchString (spec_anchored (matcherValue m)) '''' = Inr b)"
  shows "queryToSQL_matchers MatchString (Matchers q) [] =
           Inr (map (\<lambda>m. spec_predicate
                       (MatchString (spec_anchored (matcherValue m)) '''' = Inr True) m)
                  (Matchers q))
         \<and> (\<forall>b m. hd (spec_predicate b m) = CHR ''('' \<and> last (spec_predicate b m) = CHR '')'')"
proof -
  have "hd (spec_predicate b m) = CHR ''('' \<and> last (spec_predicate b m) = CHR '')''" for b m
    by (cases "matcherType m") (simp_all add: spec_predicate_def Let_def)
  moreover from assms have "queryToSQL_matchers MatchString (Matchers q) [] =
      Inr ([] @ map (\<lambda>m. spec_predicate
                           (MatchString (spec_anchored (matcherValue m)) '''' = Inr True) m)
                  (Matchers q))"
    by (rule queryToSQL_matchers_ok)
  ultimately show ?thesis
    by simp
qed

theorem queryToSQL_matcher_predicates_witness:
  \<open>queryToSQL_matchers exampleMatchString
     [\<lparr>matcherType = EQUAL, matcherName = ''job'', matcherValue = ''''\<rparr>,
      \<lparr>matcherType = EQUAL, matcherName = ''job'', matcherValue = ''api''\<rparr>,
      \<lparr>matcherType = NOT_EQUAL, matcherName = ''env'', matcherValue = ''''\<rparr>,
      \<lparr>matcherType = NOT_EQUAL, matcherName = ''env'', matcherValue = ''prod''\<rparr>,
      \<lparr>matcherType = REGEX_MATCH, matcherName = ''a'', matcherValue = ''.*''\<rparr>,
      \<lparr>matcherType = REGEX_MATCH, matcherName = ''a'', matcherValue = ''a.+''\<rparr>,
      \<lparr>matcherType = REGEX_NO_MATCH, matcherName = ''b'', matcherValue = ''.*''\<rparr>,
      \<lparr>matcherType = REGEX_NO_MATCH, matcherName = ''b'', matcherValue = ''a.+''\<rparr>] [] =
   Inr [''("ljob" IS NULL)'',
        ''("ljob" = 'api')'',
        ''("lenv" IS NOT NULL)'',
        ''("lenv" != 'prod')'',
        ''("la" ~ '^(?:.*)$' OR "la" IS NULL)'',
        ''("la" ~ '^(?:a.+)$')'',
        ''("lb" !~ '^(?:.*)$')'',
        ''("lb" !~ '^(?:a.+)$' OR "lb" IS NULL)'']\<close>
  using queryToSQL_matcher_predicates [of
      "\<lparr>StartTimestampMs = 0, EndTimestampMs = 0, Matchers =
        [\<lparr>matcherType = EQUAL, matcherName = ''job'', matcherValue = ''''\<rparr>,
         \<lparr>matcherType = EQUAL, matcherName = ''job'', matcherValue = ''api''\<rparr>,
         \<lparr>matcherType = NOT_EQUAL, matcherName = ''env'', matcherValue = ''''\<rparr>,
         \<lparr>matcherType = NOT_EQUAL, matcherName = ''env'', matcherValue = ''prod''\<rparr>,
         \<lparr>matcherType = REGEX_MATCH, matcherName = ''a'', matcherValue = ''.*''\<rparr>,
         \<lparr>matcherType = REGEX_MATCH, matcherName = ''a'', matcherValue = ''a.+''\<rparr>,
         \<lparr>matcherType = REGEX_NO_MATCH, matcherName = ''b'', matcherValue = ''.*''\<rparr>,
         \<lparr>matcherType = REGEX_NO_MATCH, matcherName = ''b'', matcherValue = ''a.+''\<rparr>]\<rparr>"
      exampleMatchString]
  by (simp add: isRegex_def spec_anchored_def exampleMatchString_def spec_predicate_def
      escapeLabelName_def escapeLabelValue_def escaper_def)

text \<open>
  C8 does not hold for every value that is an invalid pattern: the code compiles the
  anchored pattern, and anchoring can turn an invalid value into a valid pattern. The
  value \<open>)|(\<close> does not compile; anchored it is \<open>^(?:)|()$\<close>, which compiles and
  matches the empty string, so the query is translated and no error is returned.
\<close>

theorem queryToSQL_invalid_value_counterexample:
  \<open>exampleMatchString '')|('' ''''
     = Inl (Error (''error parsing regexp: unexpected ): '' @ [CHR 0x60] @ '')|('' @ [CHR 0x60]))
   \<and> queryToSQL exampleMatchString
       \<lparr>StartTimestampMs = 1000, EndTimestampMs = 2000, Matchers =
          [\<lparr>matcherType = REGEX_NO_MATCH, matcherName = ''z'', matcherValue = '')|(''\<rparr>]\<rparr>
     = (''SELECT * from metrics WHERE ("lz" !~ '^(?:)|()$') AND (timestamp <= 2000) AND (timestamp >= 1000) ORDER BY timestamp'',
        None)\<close>
  by (simp add: exampleMatchString_def queryToSQL_def escapeLabelName_def escapeLabelValue_def
      escaper_def FormatInt_def FormatUint.simps)

text \<open>
  C8, amended: when the anchored pattern \<open>^(?:value)$\<close> of some regular-expression
  matcher does not compile, \<open>queryToSQL\<close> returns the empty statement together with an
  error, and the error is the one the regular-expression engine gave for the anchored
  pattern of a matcher of the query.
\<close>

theorem queryToSQL_invalid_regex:
  assumes "m \<in> set (Matchers q)" and "isRegex m"
    and "MatchString (spec_anchored (matcherValue m)) '''' = Inl err"
  shows "\<exists>err' m'. queryToSQL MatchString q = ('''', Some err')
           \<and> m' \<in> set (Matchers q) \<and> isRegex m'
           \<and> MatchString (spec_anchored (matcherValue m')) '''' = Inl err'"
proof -
  from queryToSQL_matchers_err
    [where rx = MatchString and ms = "Matchers q" and sels = "[]", OF assms]
  obtain err' m' where
    "queryToSQL_matchers MatchString (Matchers q) [] = Inl err'"
    "m' \<in> set (Matchers q)" "isRegex m'"
    "MatchString (spec_anchored (matcherValue m')) '''' = Inl err'"
    by blast
  then show ?thesis
    by (auto simp: queryToSQL_def)
qed

theorem queryToSQL_invalid_regex_witness:
  "queryToSQL exampleMatchString
     \<lparr>StartTimestampMs = 1000, EndTimestampMs = 2000, Matchers =
        [\<lparr>matcherType = EQUAL, matcherName = ''job'', matcherValue = ''api''\<rparr>,
         \<lparr>matcherType = REGEX_MATCH, matcherName = ''a'', matcherValue = ''(''\<rparr>]\<rparr>
   = ('''',
      Some (Error (''error parsing regexp: missing closing ): ''
              @ [CHR 0x60] @ ''^(?:()$'' @ [CHR 0x60])))"
  using queryToSQL_invalid_regex [of
      "\<lparr>matcherType = REGEX_MATCH, matcherName = ''a'', matcherValue = ''(''\<rparr>"
      "\<lparr>StartTimestampMs = 1000, EndTimestampMs = 2000, Matchers =
        [\<lparr>matcherType = EQUAL, matcherName = ''job'', matcherValue = ''api''\<rparr>,
         \<lparr>matcherType = REGEX_MATCH, matcherName = ''a'', matcherValue = ''(''\<rparr>]\<rparr>"
      exampleMatchString
      "Error (''error parsing regexp: missing closing ): '' @ [CHR 0x60] @ ''^(?:()$'' @ [CHR 0x60])"]
  by (auto simp: isRegex_def spec_anchored_def exampleMatchString_def)


subsection \<open>The model of Go maps\<close>

lemma map_of_map_assign: "map_of (map_assign m k v) = (map_of m)(k \<mapsto> v)"
  by (induction m k v rule: map_assign.induct) auto

lemma keys_map_assign: "set (map fst (map_assign m k v)) = insert k (set (map fst m))"
  by (induction m k v rule: map_assign.induct) auto

lemma sorted_map_assign:
  "sorted_wrt (<) (map fst m) \<Longrightarrow> sorted_wrt (<) (map fst (map_assign m k v))"
proof (induction m k v rule: map_assign.induct)
  case (1 k v)
  show ?case by simp
next
  case (2 k' v' m k v)
  then show ?case
    by (auto simp: keys_map_assign simp del: set_map)
qed

lemma sort_strict_sorted: "sorted_wrt (<) xs \<Longrightarrow> sort xs = (xs :: 'a::linorder list)"
  by (simp add: sorted_sort_id strict_sorted_iff)

lemma strict_sorted_unique:
  "sorted_wrt (<) xs \<Longrightarrow> set xs = A \<Longrightarrow> finite A \<Longrightarrow> xs = sorted_list_of_set (A :: 'a::linorder set)"
  by (metis sorted_list_of_set.idem_if_sorted_distinct strict_sorted_iff)

subsection \<open>Loops that append\<close>

lemma fold_append_one: "fold (\<lambda>x acc. acc @ [f x]) xs acc = acc @ map f xs"
  by (induction xs arbitrary: acc) simp_all

lemma fold_append_if:
  "fold (\<lambda>x acc. if c x then acc @ [f x] else acc @ [g x]) xs acc
     = acc @ map (\<lambda>x. if c x then f x else g x) xs"
  by (induction xs arbitrary: acc) simp_all

lemma Repeat_replicate: "Repeat s n = concat (replicate n s)"
  by (induction n) simp_all

subsection \<open>writesToCrateRequest\<close>

lemma labelsUsed_inner:
  "sorted_wrt (<) (map fst lu) \<Longrightarrow>
   sorted_wrt (<) (map fst (fold (\<lambda>l labelsUsed. map_assign labelsUsed (labelName l) ()) ls lu))
   \<and> set (map fst (fold (\<lambda>l labelsUsed. map_assign labelsUsed (labelName l) ()) ls lu))
       = set (map fst lu) \<union> labelName ` set ls"
proof (induction ls arbitrary: lu)
  case Nil
  then show ?case by simp
next
  case (Cons l ls)
  from Cons.prems have "sorted_wrt (<) (map fst (map_assign lu (labelName l) ()))"
    by (rule sorted_map_assign)
  from Cons.IH [OF this] show ?case
    by (auto simp: keys_map_assign simp del: set_map)
qed

lemma labelsUsed_outer:
  "sorted_wrt (<) (map fst lu) \<Longrightarrow>
   sorted_wrt (<) (map fst (fold (\<lambda>ts labelsUsed.
        fold (\<lambda>l labelsUsed. map_assign labelsUsed (labelName l) ()) (Labels ts) labelsUsed) tss lu))
   \<and> set (map fst (fold (\<lambda>ts labelsUsed.
        fold (\<lambda>l labelsUsed. map_assign labelsUsed (labelName l) ()) (Labels ts) labelsUsed) tss lu))
       = set (map fst lu) \<union> (\<Union>ts\<in>set tss. labelName ` set (Labels ts))"
proof (induction tss arbitrary: lu)
  case Nil
  then show ?case by simp
next
  case (Cons ts tss)
  let ?lu = "fold (\<lambda>l labelsUsed. map_assign labelsUsed (labelName l) ()) (Labels ts) lu"
  from labelsUsed_inner [OF Cons.prems, of "Labels ts"]
  have s: "sorted_wrt (<) (map fst ?lu)"
    and k: "set (map fst ?lu) = set (map fst lu) \<union> labelName ` set (Labels ts)"
    by blast+
  from Cons.IH [OF s] show ?case
    by (auto simp: k simp del: set_map)
qed

lemma metric_lookup:
  "map_of (fold (\<lambda>l metric. map_assign metric (labelName l) (labelValue l)) ls metric) k =
     (case filter (\<lambda>p. labelName p = k) ls of
        [] \<Rightarrow> map_of metric k
      | p # ps \<Rightarrow> Some (labelValue (last (p # ps))))"
proof (induction ls arbitrary: metric)
  case Nil
  show ?case by simp
next
  case (Cons l ls)
  show ?case
    by (simp add: Cons.IH map_of_map_assign split: list.split)
qed

lemma writesToCrateRequest_args_eq:
  "writesToCrateRequest_args Sprintf_f labels
      (fold (\<lambda>l metric. map_assign metric (labelName l) (labelValue l)) (Labels ts) []) s =
   map (spec_labelArg ts) labels
     @ [Str (Sprintf_f (sampleValue s)), I64 (int64 (Float64bits (sampleValue s))),
        I64 (sampleTimestampMs s)]"
proof -
  have "(if map_access (fold (\<lambda>l metric. map_assign metric (labelName l) (labelValue l)) (Labels ts) []) l ''''
           = '''' then GoNil
        else Str (map_access (fold (\<lambda>l metric. map_assign metric (labelName l) (labelValue l)) (Labels ts) []) l ''''))
        = spec_labelArg ts l" for l
    by (simp add: map_access_def metric_lookup spec_labelArg_def split: list.split)
  then show ?thesis
    by (simp add: writesToCrateRequest_args_def fold_append_if)
qed

lemma bulkArgs_outer:
  "fold (\<lambda>ts bulkArgs. fold (\<lambda>s bulkArgs. bulkArgs @ [f ts s]) (Samples ts) bulkArgs) tss bulkArgs
     = bulkArgs @ concat (map (\<lambda>ts. map (f ts) (Samples ts)) tss)"
  by (induction tss arbitrary: bulkArgs) (simp_all add: fold_append_one)

lemma spec_labelUnion_sorted_list_of_set:
  "spec_labelUnion req = sorted_list_of_set (\<Union>ts\<in>set (Timeseries req). labelName ` set (Labels ts))"
proof -
  have "set (concat (map (\<lambda>ts. map labelName (Labels ts)) (Timeseries req)))
          = (\<Union>ts\<in>set (Timeseries req). labelName ` set (Labels ts))"
    by auto
  then show ?thesis
    unfolding spec_labelUnion_def
    by (metis sorted_list_of_set_sort_remdups)
qed

lemma writesToCrateRequest_labels:
  "sort (map fst (fold (\<lambda>ts labelsUsed.
        fold (\<lambda>l labelsUsed. map_assign labelsUsed (labelName l) ()) (Labels ts) labelsUsed)
        (Timeseries req) [])) = spec_labelUnion req"
proof -
  let ?lu = "fold (\<lambda>ts labelsUsed.
        fold (\<lambda>l labelsUsed. map_assign labelsUsed (labelName l) ()) (Labels ts) labelsUsed)
        (Timeseries req) []"
  from labelsUsed_outer [of "[]" "Timeseries req"]
  have s: "sorted_wrt (<) (map fst ?lu)"
    and k: "set (map fst ?lu) = (\<Union>ts\<in>set (Timeseries req). labelName ` set (Labels ts))"
    by simp_all
  from s have "sort (map fst ?lu) = map fst ?lu"
    by (rule sort_strict_sorted)
  also from s k have "\<dots> = sorted_list_of_set (\<Union>ts\<in>set (Timeseries req). labelName ` set (Labels ts))"
    by (rule strict_sorted_unique) simp
  finally show ?thesis
    by (simp only: spec_labelUnion_sorted_list_of_set)
qed

lemma writesToCrateRequest_eq:
  \<open>writesToCrateRequest Sprintf_f req =
     \<lparr>Stmt = ''INSERT INTO metrics ('' @ Join (map escapeLabelName (spec_labelUnion req)) '', ''
               @ '', "value", "valueRaw", "timestamp") VALUES (''
               @ concat (replicate (length (spec_labelUnion req)) ''?, '') @ '' ?, ?, ?)'',
      BulkArgs =
        concat (map (\<lambda>ts. map (\<lambda>s. map (spec_labelArg ts) (spec_labelUnion req)
                               @ [Str (Sprintf_f (sampleValue s)),
                                  I64 (int64 (Float64bits (sampleValue s))),
                                  I64 (sampleTimestampMs s)])
                          (Samples ts))
                  (Timeseries req))\<rparr>\<close>
  unfolding writesToCrateRequest_def Let_def writesToCrateRequest_labels
  by (simp only: fold_append_one bulkArgs_outer writesToCrateRequest_args_eq Repeat_replicate
      append_Nil)

text \<open>
  C5: the column list of the bulk insert is the sorted union of the label names of the
  batch (each escaped) followed by the three fixed columns, with one placeholder for each;
  there is one argument row for every sample of every series, in order, and it carries, for
  each label of the union, the series' value for the label if present and non-empty and
  the NULL marker otherwise, then the decimal text of the value, the bit pattern of the
  value as a signed integer, and the timestamp.
\<close>

theorem writesToCrateRequest_bulk_insert:
  \<open>spec_labelUnion req
     = sorted_list_of_set (\<Union>ts\<in>set (Timeseries req). labelName ` set (Labels ts))
   \<and> Stmt (writesToCrateRequest Sprintf_f req)
     = ''INSERT INTO metrics ('' @ Join (map escapeLabelName (spec_labelUnion req)) '', ''
         @ '', "value", "valueRaw", "timestamp") VALUES (''
         @ concat (replicate (length (spec_labelUnion req)) ''?, '') @ '' ?, ?, ?)''
   \<and> BulkArgs (writesToCrateRequest Sprintf_f req)
     = concat (map (\<lambda>ts. map (\<lambda>s. map (spec_labelArg ts) (spec_labelUnion req)
                              @ [Str (Sprintf_f (sampleValue s)),
                                 I64 (int64 (Float64bits (sampleValue s))),
                                 I64 (sampleTimestampMs s)])
                         (Samples ts))
                 (Timeseries req))\<close>
  by (simp add: writesToCrateRequest_eq spec_labelUnion_sorted_list_of_set [symmetric])

theorem writesToCrateRequest_bulk_insert_witness:
  \<open>writesToCrateRequest exampleSprintf_f
     \<lparr>Timeseries =
        [\<lparr>Labels = [\<lparr>labelName = ''a'', labelValue = ''1''\<rparr>],
          Samples = [\<lparr>sampleValue = Float64frombits 0x3FF8000000000000,
                      sampleTimestampMs = 1000\<rparr>]\<rparr>,
         \<lparr>Labels = [\<lparr>labelName = ''b'', labelValue = ''2''\<rparr>],
          Samples = [\<lparr>sampleValue = Float64frombits 0x7FF0000000000000,
                      sampleTimestampMs = 2000\<rparr>]\<rparr>]\<rparr>
   = \<lparr>Stmt = ''INSERT INTO metrics ("la", "lb", "value", "valueRaw", "timestamp") VALUES (?, ?,  ?, ?, ?)'',
      BulkArgs =
        [[Str ''1'', GoNil, Str ''1.500000'', I64 4609434218613702656, I64 1000],
         [GoNil, Str ''2'', Str ''+Inf'', I64 9218868437227405312, I64 2000]]\<rparr>\<close>
  using writesToCrateRequest_bulk_insert [of
      "\<lparr>Timeseries =
        [\<lparr>Labels = [\<lparr>labelName = ''a'', labelValue = ''1''\<rparr>],
          Samples = [\<lparr>sampleValue = Float64frombits 0x3FF8000000000000,
                      sampleTimestampMs = 1000\<rparr>]\<rparr>,
         \<lparr>Labels = [\<lparr>labelName = ''b'', labelValue = ''2''\<rparr>],
          Samples = [\<lparr>sampleValue = Float64frombits 0x7FF0000000000000,
                      sampleTimestampMs = 2000\<rparr>]\<rparr>]\<rparr>"
      exampleSprintf_f]
  by (simp add: crateRequest.equality spec_labelUnion_def spec_labelArg_def
      exampleSprintf_f_def int64_def escapeLabelName_def escaper_def)

text \<open>
  C10: when no series of the batch has a label, the column list of the statement starts
  with a comma, and there is one argument row of exactly three values for every sample.
\<close>

theorem writesToCrateRequest_no_labels:
  assumes "\<forall>ts\<in>set (Timeseries req). Labels ts = []"
  shows
    \<open>Stmt (writesToCrateRequest Sprintf_f req)
       = ''INSERT INTO metrics (, "value", "valueRaw", "timestamp") VALUES ( ?, ?, ?)''
     \<and> BulkArgs (writesToCrateRequest Sprintf_f req)
       = concat (map (\<lambda>ts. map (\<lambda>s. [Str (Sprintf_f (sampleValue s)),
                                     I64 (int64 (Float64bits (sampleValue s))),
                                     I64 (sampleTimestampMs s)])
                           (Samples ts))
                   (Timeseries req))
     \<and> length (BulkArgs (writesToCrateRequest Sprintf_f req))
       = sum_list (map (\<lambda>ts. length (Samples ts)) (Timeseries req))
     \<and> (\<forall>args\<in>set (BulkArgs (writesToCrateRequest Sprintf_f req)). length args = 3)\<close>
proof -
  from assms have names: "concat (map (\<lambda>ts. map labelName (Labels ts)) (Timeseries req)) = []"
    by simp
  have "spec_labelUnion req = sort (remdups [])"
    unfolding spec_labelUnion_def names ..
  then have labels: "spec_labelUnion req = []"
    by simp
  show ?thesis
    by (auto simp: writesToCrateRequest_eq labels length_concat comp_def)
qed

theorem writesToCrateRequest_no_labels_witness:
  \<open>writesToCrateRequest exampleSprintf_f
     \<lparr>Timeseries =
        [\<lparr>Labels = [],
          Samples = [\<lparr>sampleValue = Float64frombits 0x3FF8000000000000,
                      sampleTimestampMs = 1000\<rparr>,
                     \<lparr>sampleValue = Float64frombits 0x3FF0000000000000,
                      sampleTimestampMs = 2000\<rparr>]\<rparr>,
         \<lparr>Labels = [],
          Samples = [\<lparr>sampleValue = Float64frombits 0x7FF0000000000000,
                      sampleTimestampMs = 3000\<rparr>]\<rparr>]\<rparr>
   = \<lparr>Stmt = ''INSERT INTO metrics (, "value", "valueRaw", "timestamp") VALUES ( ?, ?, ?)'',
      BulkArgs =
        [[Str ''1.500000'', I64 4609434218613702656, I64 1000],
         [Str ''1.000000'', I64 4607182418800017408, I64 2000],
         [Str ''+Inf'', I64 9218868437227405312, I64 3000]]\<rparr>\<close>
  using writesToCrateRequest_no_labels [of
      "\<lparr>Timeseries =
        [\<lparr>Labels = [],
          Samples = [\<lparr>sampleValue = Float64frombits 0x3FF8000000000000,
                      sampleTimestampMs = 1000\<rparr>,
                     \<lparr>sampleValue = Float64frombits 0x3FF0000000000000,
                      sampleTimestampMs = 2000\<rparr>]\<rparr>,
         \<lparr>Labels = [],
          Samples = [\<lparr>sampleValue = Float64frombits 0x7FF0000000000000,
                      sampleTimestampMs = 3000\<rparr>]\<rparr>]\<rparr>"
      exampleSprintf_f]
  by (simp add: crateRequest.equality exampleSprintf_f_def int64_def)


subsection \<open>The statement of a read\<close>

lemma Join_Cons: "elems \<noteq> [] \<Longrightarrow> Join (a # elems) sep = a @ sep @ Join elems sep"
  by (cases elems) simp_all

lemma Join_two_more:
  "Join (elems @ [a, b]) sep = concat (map (\<lambda>e. e @ sep) elems) @ a @ sep @ b"
  by (induction elems) (simp_all add: Join_Cons)

text \<open>
  C3: when the patterns of the regular-expression matchers compile, the statement is
  \<open>SELECT * from metrics WHERE\<close>, then the predicate of every matcher in matcher
  order, each followed by \<open>AND\<close>, then \<open>(timestamp <= end) AND (timestamp >= start)\<close>
  and \<open>ORDER BY timestamp\<close>, returned without an error; the request that carries it
  to the store has no argument rows.
\<close>

theorem queryToSQL_statement:
  assumes "\<forall>m\<in>set (Matchers q). isRegex m \<longrightarrow>
             (\<exists>b. MatchString (spec_anchored (matcherValue m)) '''' = Inr b)"
  shows "queryToSQL MatchString q =
           (''SELECT * from metrics WHERE ''
              @ concat (map (\<lambda>m. spec_predicate
                                (MatchString (spec_anchored (matcherValue m)) '''' = Inr True) m
                              @ '' AND '')
                         (Matchers q))
              @ ''(timestamp <= '' @ FormatInt (EndTimestampMs q) @ '')'' @ '' AND ''
              @ ''(timestamp >= '' @ FormatInt (StartTimestampMs q) @ '')''
              @ '' ORDER BY timestamp'', None)
         \<and> runQuery_request (fst (queryToSQL MatchString q))
           = \<lparr>Stmt = fst (queryToSQL MatchString q), BulkArgs = []\<rparr>"
proof -
  from assms have "queryToSQL_matchers MatchString (Matchers q) [] =
      Inr ([] @ map (\<lambda>m. spec_predicate
                           (MatchString (spec_anchored (matcherValue m)) '''' = Inr True) m)
                  (Matchers q))"
    by (rule queryToSQL_matchers_ok)
  then show ?thesis
    by (simp add: queryToSQL_def runQuery_request_def Join_two_more comp_def)
qed

theorem queryToSQL_statement_witness:
  \<open>queryToSQL exampleMatchString
     \<lparr>StartTimestampMs = 1000, EndTimestampMs = 2000, Matchers =
        [\<lparr>matcherType = EQUAL, matcherName = ''__name__'', matcherValue = ''up''\<rparr>,
         \<lparr>matcherType = REGEX_MATCH, matcherName = ''job'', matcherValue = ''.*''\<rparr>]\<rparr>
   = (''SELECT * from metrics WHERE ("l__name__" = 'up') AND ("ljob" ~ '^(?:.*)$' OR "ljob" IS NULL) AND (timestamp <= 2000) AND (timestamp >= 1000) ORDER BY timestamp'',
      None)\<close>
  using queryToSQL_statement [of
      "\<lparr>StartTimestampMs = 1000, EndTimestampMs = 2000, Matchers =
        [\<lparr>matcherType = EQUAL, matcherName = ''__name__'', matcherValue = ''up''\<rparr>,
         \<lparr>matcherType = REGEX_MATCH, matcherName = ''job'', matcherValue = ''.*''\<rparr>]\<rparr>"
      exampleMatchString]
  by (auto simp: isRegex_def spec_anchored_def exampleMatchString_def spec_predicate_def
      escapeLabelName_def escapeLabelValue_def escaper_def FormatInt_def FormatUint.simps)

text \<open>The verb \<open>%d\<close> on zero, a negative number and the largest \<open>int64\<close>.\<close>

lemma FormatInt_examples:
  "FormatInt 0 = ''0''" "FormatInt (- 15) = ''-15''" "FormatInt 9223372036854775807 = ''9223372036854775807''"
  by (simp_all add: FormatInt_def FormatUint.simps)

subsection \<open>runQuery and the status of the store\<close>

text \<open>
  When the store answers with a status other than 200 (and the transport itself reported no
  error), \<open>runQuery\<close> returns the variable \<open>err\<close>, which is \<open>nil\<close> at that point:
  the caller gets no series and no error.
\<close>

lemma runQuery_status:
  assumes "queryToSQL MatchString q = (query, None)"
    and "Marshal (runQuery_request query) = (jsonRequest, None)"
    and "Post jsonRequest = (result, None)"
    and "StatusCode result \<noteq> 200"
  shows "runQuery MatchString String Marshal Post Decode q = Inr ([], None)"
  using assms by (simp add: runQuery_def)

text \<open>
  C7: a query without matchers, a store that answers with status 500. \<open>runQuery\<close>
  returns the \<open>nil\<close> slice and the \<open>nil\<close> error, so the failure of the store is not
  reported to the caller.
\<close>

theorem runQuery_swallows_status:
  "runQuery exampleMatchString exampleString
     (\<lambda>request. (Stmt request, None))
     (\<lambda>jsonRequest. (\<lparr>StatusCode = 500, Body = ''SQLParseException''\<rparr>, None))
     (\<lambda>body. (\<lparr>Cols = [], Rows = []\<rparr>, None))
     \<lparr>StartTimestampMs = 1000, EndTimestampMs = 2000, Matchers = []\<rparr>
   = Inr ([], None)"
  by (simp add: runQuery_def queryToSQL_def)


subsection \<open>Assembling the result\<close>

lemma rows_step:
  "responseToTimeseries_row cols row = Inr d \<Longrightarrow>
   responseToTimeseries_rows String cols (row # rows) timeseries =
     responseToTimeseries_rows String cols rows
       (map_assign timeseries (spec_key String d)
          (case map_of timeseries (spec_key String d) of
             None \<Rightarrow> \<lparr>Labels = spec_labels (fst d), Samples = [spec_sample d]\<rparr>
           | Some ts \<Rightarrow> ts\<lparr>Samples := Samples ts @ [spec_sample d]\<rparr>))"
  by (cases d) (simp add: spec_key_def spec_sample_def spec_labels_def split: option.split)

lemma rows_lookup:
  assumes "map (responseToTimeseries_row cols) rows = map Inr ds"
    and "sorted_wrt (<) (map fst timeseries)"
  shows "\<exists>timeseries'.
           responseToTimeseries_rows String cols rows timeseries = Inr timeseries'
           \<and> sorted_wrt (<) (map fst timeseries')
           \<and> set (map fst timeseries') = set (map fst timeseries) \<union> spec_key String ` set ds
           \<and> (\<forall>k. map_of timeseries' k =
                 (case map_of timeseries k of
                    Some ts \<Rightarrow>
                      Some (ts\<lparr>Samples := Samples ts
                              @ map spec_sample (filter (\<lambda>d. spec_key String d = k) ds)\<rparr>)
                  | None \<Rightarrow>
                      (if filter (\<lambda>d. spec_key String d = k) ds = [] then None
                       else Some (spec_series String ds k))))"
  using assms
proof (induction rows arbitrary: ds timeseries)
  case Nil
  then show ?case
    by (auto split: option.split)
next
  case (Cons row rows)
  from Cons.prems(1) obtain d ds' where ds: "ds = d # ds'"
    and d: "responseToTimeseries_row cols row = Inr d"
    and ds': "map (responseToTimeseries_row cols) rows = map Inr ds'"
    by (cases ds) auto
  let ?k = "spec_key String d"
  let ?ts = "case map_of timeseries ?k of
               None \<Rightarrow> \<lparr>Labels = spec_labels (fst d), Samples = [spec_sample d]\<rparr>
             | Some ts \<Rightarrow> ts\<lparr>Samples := Samples ts @ [spec_sample d]\<rparr>"
  let ?m = "map_assign timeseries ?k ?ts"
  from Cons.prems(2) have sorted: "sorted_wrt (<) (map fst ?m)"
    by (rule sorted_map_assign)
  from Cons.IH [OF ds' sorted] obtain timeseries' where
    run: "responseToTimeseries_rows String cols rows ?m = Inr timeseries'"
    and s: "sorted_wrt (<) (map fst timeseries')"
    and k: "set (map fst timeseries') = set (map fst ?m) \<union> spec_key String ` set ds'"
    and l: "\<And>k. map_of timeseries' k =
                 (case map_of ?m k of
                    Some ts \<Rightarrow>
                      Some (ts\<lparr>Samples := Samples ts
                              @ map spec_sample (filter (\<lambda>d. spec_key String d = k) ds')\<rparr>)
                  | None \<Rightarrow>
                      (if filter (\<lambda>d. spec_key String d = k) ds' = [] then None
                       else Some (spec_series String ds' k)))"
    by blast
  have run': "responseToTimeseries_rows String cols (row # rows) timeseries = Inr timeseries'"
    using run by (simp only: rows_step [OF d])
  have keys: "set (map fst timeseries') = set (map fst timeseries) \<union> spec_key String ` set ds"
    unfolding k keys_map_assign ds by auto
  have lookup: "map_of timeseries' k' =
                 (case map_of timeseries k' of
                    Some ts \<Rightarrow>
                      Some (ts\<lparr>Samples := Samples ts
                              @ map spec_sample (filter (\<lambda>d. spec_key String d = k') ds)\<rparr>)
                  | None \<Rightarrow>
                      (if filter (\<lambda>d. spec_key String d = k') ds = [] then None
                       else Some (spec_series String ds k')))" for k'
  proof (cases "k' = ?k")
    case True
    show ?thesis
      unfolding l [of k'] map_of_map_assign ds
      using True
      by (cases d) (simp add: spec_series_def Let_def split: option.split)
  next
    case False
    then have "spec_key String d \<noteq> k'"
      by simp
    then show ?thesis
      unfolding l [of k'] map_of_map_assign ds
      by (simp add: spec_series_def Let_def split: option.split)
  qed
  from run' s keys lookup show ?case
    by blast
qed

lemma resp_lookup:
  "\<forall>name\<in>set names. map_of timeseries name = Some (f name) \<Longrightarrow>
   responseToTimeseries_resp timeseries names resp = Inr (resp @ map f names)"
  by (induction names arbitrary: resp) simp_all


lemma responseToTimeseries_eq:
  assumes "map (responseToTimeseries_row (Cols data)) (Rows data) = map Inr decoded"
  shows "responseToTimeseries String data =
           Inr (map (spec_series String decoded) (sort (remdups (map (spec_key String) decoded))))"
proof -
  from rows_lookup [OF assms, of "[]" String] obtain timeseries where
    run: "responseToTimeseries_rows String (Cols data) (Rows data) [] = Inr timeseries"
    and s: "sorted_wrt (<) (map fst timeseries)"
    and k: "set (map fst timeseries) = spec_key String ` set decoded"
    and l: "\<And>k. map_of timeseries k =
              (if filter (\<lambda>d. spec_key String d = k) decoded = [] then None
               else Some (spec_series String decoded k))"
    by auto
  from s have "sort (map fst timeseries) = map fst timeseries"
    by (rule sort_strict_sorted)
  also from s k have "\<dots> = sorted_list_of_set (set (map (spec_key String) decoded))"
    by (intro strict_sorted_unique) simp_all
  also have "\<dots> = sort (remdups (map (spec_key String) decoded))"
    by (rule sorted_list_of_set_sort_remdups)
  finally have names: "sort (map fst timeseries) = sort (remdups (map (spec_key String) decoded))" .
  have "map_of timeseries name = Some (spec_series String decoded name)"
    if "name \<in> set (sort (remdups (map (spec_key String) decoded)))" for name
  proof -
    from that obtain d where "d \<in> set decoded" "spec_key String d = name"
      by auto
    then have "filter (\<lambda>d. spec_key String d = name) decoded \<noteq> []"
      by (auto simp: filter_empty_conv)
    then show ?thesis
      by (simp add: l)
  qed
  then have "responseToTimeseries_resp timeseries
               (sort (remdups (map (spec_key String) decoded))) [] =
             Inr ([] @ map (spec_series String decoded)
                        (sort (remdups (map (spec_key String) decoded))))"
    by (intro resp_lookup) blast
  with run names show ?thesis
    by (simp add: responseToTimeseries_def)
qed

lemma spec_labels_sorted: "sorted (map labelName (spec_labels metric))"
  by (simp add: spec_labels_def comp_def)

lemma spec_series_labels_sorted: "sorted (map labelName (Labels (spec_series String decoded key)))"
  by (simp add: spec_series_def Let_def spec_labels_sorted split: list.split prod.split)



lemma cells_step_ok:
  "i < length cols \<Longrightarrow> cellOK (cols ! i) cell \<Longrightarrow>
   \<exists>st'. responseToTimeseries_cells cols (cell # row) i st
          = responseToTimeseries_cells cols row (Suc i) st'"
  by (cases st; cases cell) (auto simp: Let_def cellOK_def isStr_def isNum_def)

lemma cells_step_panic:
  "i < length cols \<Longrightarrow> \<not> cellOK (cols ! i) cell \<Longrightarrow>
   \<exists>p. responseToTimeseries_cells cols (cell # row) i st = Inl p"
  by (cases st; cases cell) (auto simp: Let_def cellOK_def isStr_def isNum_def)

lemma cells_returns_iff:
  "i \<le> length cols \<Longrightarrow>
   (\<exists>st'. responseToTimeseries_cells cols row i st = Inr st') \<longleftrightarrow>
     (i + length row \<le> length cols
      \<and> list_all (\<lambda>(column, cell). cellOK column cell) (zip (drop i cols) row))"
proof (induction row arbitrary: i st)
  case Nil
  then show ?case
    by (cases st) simp
next
  case (Cons cell row)
  show ?case
  proof (cases "length cols \<le> i")
    case True
    then show ?thesis
      by (cases st) simp
  next
    case False
    then have i: "i < length cols" and Suc: "Suc i \<le> length cols"
      by simp_all
    from i have drop: "drop i cols = cols ! i # drop (Suc i) cols"
      by (simp add: Cons_nth_drop_Suc)
    show ?thesis
    proof (cases "cellOK (cols ! i) cell")
      case True
      from cells_step_ok [OF i True] obtain st' where
        "responseToTimeseries_cells cols (cell # row) i st
           = responseToTimeseries_cells cols row (Suc i) st'"
        by blast
      with True Cons.IH [OF Suc, of st'] show ?thesis
        unfolding drop by simp
    next
      case False
      from cells_step_panic [OF i False] obtain p where
        "responseToTimeseries_cells cols (cell # row) i st = Inl p"
        by blast
      with False show ?thesis
        unfolding drop by simp
    qed
  qed
qed

lemma row_returns_iff:
  "(\<exists>d. responseToTimeseries_row cols row = Inr d) \<longleftrightarrow> rowOK cols row"
  unfolding responseToTimeseries_row_def rowOK_def
  using cells_returns_iff [where cols = cols and row = row and i = 0
      and st = "([], Float64frombits 0, 0)"]
  by simp

lemma rows_decoded_iff:
  "(\<exists>ds. map (responseToTimeseries_row cols) rows = map Inr ds) \<longleftrightarrow> list_all (rowOK cols) rows"
proof (induction rows)
  case Nil
  show ?case by simp
next
  case (Cons row rows)
  have "(\<exists>ds. map (responseToTimeseries_row cols) (row # rows) = map Inr ds) \<longleftrightarrow>
        (\<exists>d. responseToTimeseries_row cols row = Inr d)
          \<and> (\<exists>ds. map (responseToTimeseries_row cols) rows = map Inr ds)"
    by (auto simp: map_eq_Cons_conv Cons_eq_map_conv)
  then show ?case
    unfolding Cons.IH row_returns_iff by simp
qed

lemma rows_panic:
  "\<not> list_all (rowOK cols) rows \<Longrightarrow>
   \<exists>p. responseToTimeseries_rows String cols rows timeseries = Inl p"
proof (induction rows arbitrary: timeseries)
  case Nil
  then show ?case by simp
next
  case (Cons row rows)
  show ?case
  proof (cases "responseToTimeseries_row cols row")
    case (Inl p)
    then show ?thesis by simp
  next
    case (Inr d)
    then have "rowOK cols row"
      using row_returns_iff by blast
    with Cons.prems have "\<not> list_all (rowOK cols) rows"
      by simp
    from Cons.IH [OF this] show ?thesis
      by (simp only: rows_step [OF Inr])
  qed
qed

lemma responseToTimeseries_Inl_iff:
  "(\<exists>p. responseToTimeseries String data = Inl p) \<longleftrightarrow> \<not> wellShaped data"
proof (cases "wellShaped data")
  case True
  then obtain ds where "map (responseToTimeseries_row (Cols data)) (Rows data) = map Inr ds"
    unfolding wellShaped_def using rows_decoded_iff by blast
  from responseToTimeseries_eq [OF this, of String] True show ?thesis
    by simp
next
  case False
  then obtain p where "responseToTimeseries_rows String (Cols data) (Rows data) [] = Inl p"
    unfolding wellShaped_def using rows_panic by blast
  with False show ?thesis
    by (simp add: responseToTimeseries_def)
qed



text \<open>
  C4: when no row makes the assembler panic, the rows are grouped by the key of their
  decoded label set: the result has exactly one series for every key, in the sorted order
  of the keys; the samples of a series are those of the rows with its key, in row order
  (so rows that decode to the same label set end in the same series); its labels are those
  of the first such row, sorted by name.
\<close>

theorem responseToTimeseries_groups:
  assumes "map (responseToTimeseries_row (Cols data)) (Rows data) = map Inr decoded"
  shows "responseToTimeseries String data =
           Inr (map (spec_series String decoded) (sort (remdups (map (spec_key String) decoded))))
         \<and> sorted (sort (remdups (map (spec_key String) decoded)))
         \<and> distinct (sort (remdups (map (spec_key String) decoded)))
         \<and> (\<forall>key. Samples (spec_series String decoded key)
                    = map spec_sample (filter (\<lambda>d. spec_key String d = key) decoded)
                  \<and> sorted (map labelName (Labels (spec_series String decoded key))))
         \<and> (\<forall>d\<in>set decoded. \<forall>d'\<in>set decoded. fst d = fst d' \<longrightarrow>
               spec_key String d = spec_key String d'
               \<and> spec_sample d' \<in> set (Samples (spec_series String decoded (spec_key String d))))"
proof -
  have samples: "Samples (spec_series String decoded key)
          = map spec_sample (filter (\<lambda>d. spec_key String d = key) decoded)" for key
    by (simp add: spec_series_def Let_def)
  have same: "spec_key String d = spec_key String d'" if "fst d = fst d'" for d d'
    using that by (cases d; cases d') (simp add: spec_key_def)
  have member: "spec_sample d' \<in> set (Samples (spec_series String decoded (spec_key String d)))"
    if "d' \<in> set decoded" and "fst d = fst d'" for d d'
    using that same [of d d'] by (simp add: samples)
  have grouped: "\<forall>d\<in>set decoded. \<forall>d'\<in>set decoded. fst d = fst d' \<longrightarrow>
               spec_key String d = spec_key String d'
               \<and> spec_sample d' \<in> set (Samples (spec_series String decoded (spec_key String d)))"
    using same member by blast
  have series: "\<forall>key. Samples (spec_series String decoded key)
                    = map spec_sample (filter (\<lambda>d. spec_key String d = key) decoded)
                  \<and> sorted (map labelName (Labels (spec_series String decoded key)))"
    using samples spec_series_labels_sorted by blast
  have keys: "sorted (sort (remdups (map (spec_key String) decoded)))"
    "distinct (sort (remdups (map (spec_key String) decoded)))"
    by simp_all
  from responseToTimeseries_eq [OF assms, of String] keys series grouped show ?thesis
    by (intro conjI)
qed

theorem responseToTimeseries_groups_witness:
  "responseToTimeseries exampleString
     \<lparr>Cols = [''lb'', ''la'', ''timestamp'', ''valueRaw''],
      Rows = [[Str ''2'', Str ''1'', Num ''1000'', Num ''4609434218613702656''],
              [GoNil, Str ''x'', Num ''1500'', Num ''-4503599627370496''],
              [Str ''2'', Str ''1'', Num ''2000'', Num ''9218868437227405312'']]\<rparr>
   = Inr [\<lparr>Labels = [\<lparr>labelName = ''a'', labelValue = ''1''\<rparr>,
                     \<lparr>labelName = ''b'', labelValue = ''2''\<rparr>],
           Samples = [\<lparr>sampleValue = Float64frombits 0x3FF8000000000000,
                       sampleTimestampMs = 1000\<rparr>,
                      \<lparr>sampleValue = Float64frombits 0x7FF0000000000000,
                       sampleTimestampMs = 2000\<rparr>]\<rparr>,
          \<lparr>Labels = [\<lparr>labelName = ''a'', labelValue = ''x''\<rparr>],
           Samples = [\<lparr>sampleValue = Float64frombits 0xFFF0000000000000,
                       sampleTimestampMs = 1500\<rparr>]\<rparr>]"
  using responseToTimeseries_groups [of
      "\<lparr>Cols = [''lb'', ''la'', ''timestamp'', ''valueRaw''],
        Rows = [[Str ''2'', Str ''1'', Num ''1000'', Num ''4609434218613702656''],
                [GoNil, Str ''x'', Num ''1500'', Num ''-4503599627370496''],
                [Str ''2'', Str ''1'', Num ''2000'', Num ''9218868437227405312'']]\<rparr>"
      "[([(''a'', ''1''), (''b'', ''2'')], Float64frombits 0x3FF8000000000000, 1000),
        ([(''a'', ''x'')], Float64frombits 0xFFF0000000000000, 1500),
        ([(''a'', ''1''), (''b'', ''2'')], Float64frombits 0x7FF0000000000000, 2000)]"
      exampleString]
  by (simp add: responseToTimeseries_row_def Number_Int64_def ParseInt_def ParseUint_def isDigit_def
      uint64_def Let_def spec_series_def spec_key_def spec_sample_def spec_labels_def
      map_access_def exampleString_def)

text \<open>
  C6 does not hold: the assembler has no failure result, and it discards the error of
  \<open>Int64()\<close>. A table without the columns \<open>timestamp\<close> and \<open>valueRaw\<close>, and a
  table whose cells under them are the JSON numbers \<open>1.5\<close> and \<open>1e3\<close>, each give a
  series with the sample of value bits 0 at timestamp 0; a timestamp of \<open>2 ^ 63\<close> is cut
  to the largest \<open>int64\<close>.
\<close>

theorem responseToTimeseries_malformed_counterexample:
  "responseToTimeseries exampleString
     \<lparr>Cols = [''lfoo''], Rows = [[Str ''bar'']]\<rparr>
   = Inr [\<lparr>Labels = [\<lparr>labelName = ''foo'', labelValue = ''bar''\<rparr>],
           Samples = [\<lparr>sampleValue = Float64frombits 0, sampleTimestampMs = 0\<rparr>]\<rparr>]
   \<and> responseToTimeseries exampleString
     \<lparr>Cols = [''lfoo'', ''timestamp'', ''valueRaw''],
      Rows = [[Str ''bar'', Num ''1.5'', Num ''1e3'']]\<rparr>
   = Inr [\<lparr>Labels = [\<lparr>labelName = ''foo'', labelValue = ''bar''\<rparr>],
           Samples = [\<lparr>sampleValue = Float64frombits 0, sampleTimestampMs = 0\<rparr>]\<rparr>]
   \<and> responseToTimeseries exampleString
     \<lparr>Cols = [''lfoo'', ''timestamp'', ''valueRaw''],
      Rows = [[Str ''bar'', Num ''9223372036854775808'', Num ''4609434218613702656'']]\<rparr>
   = Inr [\<lparr>Labels = [\<lparr>labelName = ''foo'', labelValue = ''bar''\<rparr>],
           Samples = [\<lparr>sampleValue = Float64frombits 0x3FF8000000000000,
                       sampleTimestampMs = 9223372036854775807\<rparr>]\<rparr>]"
  by (simp add: responseToTimeseries_def responseToTimeseries_row_def Number_Int64_def
      ParseInt_def ParseUint_def isDigit_def uint64_def Let_def map_access_def exampleString_def)

text \<open>
  C6, amended: the assembler fails, with a run-time panic and without a result, exactly on
  the tables where some row has more cells than the table has columns, or some cell stands
  under a column without a name, or is a non-null cell other than a string under a column
  that starts with \<open>l\<close>, or is not a JSON number under \<open>timestamp\<close> or
  \<open>valueRaw\<close>. On every other table it returns series.
\<close>

theorem responseToTimeseries_panics_iff_malformed:
  "(\<exists>p. responseToTimeseries String data = Inl p) \<longleftrightarrow> \<not> wellShaped data"
  by (rule responseToTimeseries_Inl_iff)

theorem responseToTimeseries_panics_iff_malformed_witness:
  "(\<exists>p. responseToTimeseries exampleString
          \<lparr>Cols = [''lfoo'', ''timestamp''], Rows = [[Str ''bar'', Str ''abc'']]\<rparr> = Inl p)
   \<and> (\<exists>p. responseToTimeseries exampleString
          \<lparr>Cols = [''lfoo''], Rows = [[Str ''bar'', Num ''1000'']]\<rparr> = Inl p)
   \<and> \<not> (\<exists>p. responseToTimeseries exampleString
          \<lparr>Cols = [''lfoo'', ''timestamp''], Rows = [[Str ''bar'', Num ''1.5'']]\<rparr> = Inl p)"
  using responseToTimeseries_panics_iff_malformed [of exampleString
      "\<lparr>Cols = [''lfoo'', ''timestamp''], Rows = [[Str ''bar'', Str ''abc'']]\<rparr>"]
    responseToTimeseries_panics_iff_malformed [of exampleString
      "\<lparr>Cols = [''lfoo''], Rows = [[Str ''bar'', Num ''1000'']]\<rparr>"]
    responseToTimeseries_panics_iff_malformed [of exampleString
      "\<lparr>Cols = [''lfoo'', ''timestamp''], Rows = [[Str ''bar'', Num ''1.5'']]\<rparr>"]
  by (simp add: wellShaped_def rowOK_def cellOK_def isStr_def isNum_def)

subsection \<open>Decimal integers\<close>

lemma digit_cases: "k < 10 \<Longrightarrow> k = 0 \<or> k = 1 \<or> k = 2 \<or> k = 3 \<or> k = 4 \<or> k = 5 \<or> k = 6
    \<or> k = 7 \<or> k = 8 \<or> k = (9::nat)"
  by arith

lemma digit_char:
  assumes "k < 10"
  shows "isDigit (''0123456789'' ! k)" and "of_char (''0123456789'' ! k) - 48 = k"
    and "''0123456789'' ! k \<noteq> CHR ''+''" and "''0123456789'' ! k \<noteq> CHR ''-''"
  using digit_cases [OF assms] by (auto simp: isDigit_def)

lemma ParseUint_digits_append:
  "ParseUint_digits (xs @ ys) n =
     (case ParseUint_digits xs n of
        (n', None) \<Rightarrow> ParseUint_digits ys n'
      | (n', Some e) \<Rightarrow> (n', Some e))"
proof (induction xs arbitrary: n)
  case Nil
  show ?case by simp
next
  case (Cons d xs)
  define n1 where "n1 = n * 10 + (of_char d - 48 :: nat)"
  have step: "ParseUint_digits (d # zs) n =
      (if \<not> isDigit d then (0, Some ErrSyntax)
       else if (2 ^ 64 - 1) div 10 + 1 \<le> n then (2 ^ 64 - 1, Some ErrRange)
       else if 2 ^ 64 - 1 < n1 then (2 ^ 64 - 1, Some ErrRange)
       else ParseUint_digits zs n1)" for zs
    unfolding n1_def by (simp only: ParseUint_digits.simps Let_def)
  show ?case
    unfolding append_Cons step Cons.IH by simp
qed

lemma ParseUint_digits_one:
  assumes "k < 10" and "n * 10 + k < 2 ^ 64"
  shows "ParseUint_digits [''0123456789'' ! k] n = (n * 10 + k, None)"
proof -
  from assms have "\<not> (2 ^ 64 - 1) div 10 + 1 \<le> n"
    by simp
  moreover from assms have "\<not> 2 ^ 64 - 1 < n * 10 + k"
    by simp
  ultimately show ?thesis
    using digit_char(1,2) [OF assms(1)]
    by (simp add: Let_def del: nth_Cons_numeral)
qed

lemma ParseUint_digits_FormatUint:
  "m < 2 ^ 64 \<Longrightarrow> ParseUint_digits (FormatUint m) 0 = (m, None)"
proof (induction m rule: FormatUint.induct)
  case (1 m)
  show ?case
  proof (cases "m < 10")
    case True
    with ParseUint_digits_one [of m 0] "1.prems" show ?thesis
      by (simp add: FormatUint.simps [of m])
  next
    case False
    from "1.prems" have "m div 10 < 2 ^ 64"
      by simp
    with "1.IH" False have IH: "ParseUint_digits (FormatUint (m div 10)) 0 = (m div 10, None)"
      by simp
    have "m div 10 * 10 + m mod 10 = m"
      by simp
    with ParseUint_digits_one [of "m mod 10" "m div 10"] "1.prems"
    have "ParseUint_digits [''0123456789'' ! (m mod 10)] (m div 10) = (m, None)"
      by simp
    with False IH show ?thesis
      by (simp add: FormatUint.simps [of m] ParseUint_digits_append)
  qed
qed

lemma FormatUint_hd:
  "FormatUint m \<noteq> [] \<and> hd (FormatUint m) \<noteq> CHR ''+'' \<and> hd (FormatUint m) \<noteq> CHR ''-''"
proof (induction m rule: FormatUint.induct)
  case (1 m)
  show ?case
  proof (cases "m < 10")
    case True
    with digit_char(3,4) [of m] show ?thesis
      by (simp add: FormatUint.simps [of m])
  next
    case False
    with "1.IH" show ?thesis
      by (simp add: FormatUint.simps [of m])
  qed
qed

lemma ParseInt_FormatInt:
  assumes "- (2 ^ 63) \<le> i" and "i < 2 ^ 63"
  shows "ParseInt (FormatInt i) = (i, None)"
proof (cases "i < 0")
  case True
  with assms have "nat (- i) < 2 ^ 64" and le: "nat (- i) \<le> 2 ^ 63"
    by simp_all
  then have "ParseUint_digits (FormatUint (nat (- i))) 0 = (nat (- i), None)"
    by (intro ParseUint_digits_FormatUint)
  with True le FormatUint_hd [of "nat (- i)"] show ?thesis
    by (simp add: ParseInt_def ParseUint_def FormatInt_def)
next
  case False
  with assms have "nat i < 2 ^ 64" and lt: "nat i < 2 ^ 63"
    by simp_all
  then have "ParseUint_digits (FormatUint (nat i)) 0 = (nat i, None)"
    by (intro ParseUint_digits_FormatUint)
  with False lt FormatUint_hd [of "nat i"] show ?thesis
    by (simp add: ParseInt_def ParseUint_def FormatInt_def)
qed


text \<open>
  \<open>Int64()\<close> on a number with a fraction, on one that overflows before its fraction, on
  \<open>2 ^ 63\<close>, on the smallest \<open>int64\<close>, on a number with a plus sign and on the
  empty string.
\<close>

lemma Number_Int64_examples:
  "Number_Int64 ''1.5'' = (0, Some ErrSyntax)"
  "Number_Int64 ''99999999999999999999.5'' = (9223372036854775807, Some ErrRange)"
  "Number_Int64 ''9223372036854775808'' = (9223372036854775807, Some ErrRange)"
  "Number_Int64 ''-9223372036854775808'' = (- 9223372036854775808, None)"
  "Number_Int64 ''+7'' = (7, None)"
  "Number_Int64 '''' = (0, Some ErrSyntax)"
  by (simp_all add: Number_Int64_def ParseInt_def ParseUint_def isDigit_def
      ErrSyntax_def ErrRange_def)

subsection \<open>The raw bit pattern of a sample value\<close>

lemma writesToCrateRequest_args_shape:
  "writesToCrateRequest_args Sprintf_f labels metric s =
     map (\<lambda>l. if map_access metric l '''' = '''' then GoNil
               else Str (map_access metric l '''')) labels
     @ [Str (Sprintf_f (sampleValue s)), I64 (int64 (Float64bits (sampleValue s))),
        I64 (sampleTimestampMs s)]"
  by (simp add: writesToCrateRequest_args_def fold_append_if)

lemma int64_range: "- (2 ^ 63) \<le> int64 u \<and> int64 u < 2 ^ 63"
proof -
  have "- (2 ^ 63) \<le> sint u"
    using sint_ge [of u] by simp
  moreover have "sint u < 2 ^ 63"
    using sint_lt [of u] by simp
  ultimately show ?thesis
    by (simp add: int64_def)
qed

lemma valueRaw_cell:
  assumes "i < length cols" and "cols ! i = ''valueRaw''"
  shows "responseToTimeseries_cells cols (Num (FormatInt (int64 (Float64bits x))) # row) i (metric, v, t)
         = responseToTimeseries_cells cols row (Suc i) (metric, x, t)"
proof -
  from int64_range [of "Float64bits x"]
  have "ParseInt (FormatInt (int64 (Float64bits x))) = (int64 (Float64bits x), None)"
    by (intro ParseInt_FormatInt) simp_all
  moreover have "uint64 (int64 (Float64bits x)) = Float64bits x"
    by (simp add: int64_def uint64_def)
  ultimately show ?thesis
    using assms by (simp add: Number_Int64_def Let_def)
qed

text \<open>
  C2: the write path puts \<open>int64(math.Float64bits(s.Value))\<close> into the argument row of
  a sample, after the labels and the text of the value and before the timestamp; it is an
  \<open>int64\<close>. When the
  decimal digits of that integer (what \<open>json.Marshal\<close> writes for it) come back as the
  JSON number of a cell under the column \<open>valueRaw\<close>, at any place of a row, the read
  path sets the value of the row to \<open>math.Float64frombits(uint64(val))\<close>, and that is
  the value written, with all its 64 bits: NaNs and the infinities included.
\<close>

theorem float64_bits_roundtrip:
  "length (writesToCrateRequest_args Sprintf_f labels metric s) = length labels + 3
   \<and> writesToCrateRequest_args Sprintf_f labels metric s ! (length labels + 1)
     = I64 (int64 (Float64bits (sampleValue s)))
   \<and> - (2 ^ 63) \<le> int64 (Float64bits (sampleValue s))
   \<and> int64 (Float64bits (sampleValue s)) < 2 ^ 63
   \<and> Float64frombits (uint64 (int64 (Float64bits (sampleValue s)))) = sampleValue s
   \<and> responseToTimeseries_row [''valueRaw'']
        [Num (FormatInt (int64 (Float64bits (sampleValue s))))]
     = Inr ([], sampleValue s, 0)
   \<and> (i < length cols \<and> cols ! i = ''valueRaw'' \<longrightarrow>
        responseToTimeseries_cells cols
          (Num (FormatInt (int64 (Float64bits (sampleValue s)))) # row) i (metric', v, t)
        = responseToTimeseries_cells cols row (Suc i) (metric', sampleValue s, t))"
proof (intro conjI impI)
  show "length (writesToCrateRequest_args Sprintf_f labels metric s) = length labels + 3"
    by (simp add: writesToCrateRequest_args_shape)
  show "writesToCrateRequest_args Sprintf_f labels metric s ! (length labels + 1)
          = I64 (int64 (Float64bits (sampleValue s)))"
    by (simp add: writesToCrateRequest_args_shape nth_append)
  show "- (2 ^ 63) \<le> int64 (Float64bits (sampleValue s))"
    and "int64 (Float64bits (sampleValue s)) < 2 ^ 63"
    using int64_range [of "Float64bits (sampleValue s)"] by simp_all
  show "Float64frombits (uint64 (int64 (Float64bits (sampleValue s)))) = sampleValue s"
    by (simp add: int64_def uint64_def)
  show "responseToTimeseries_row [''valueRaw'']
          [Num (FormatInt (int64 (Float64bits (sampleValue s))))]
        = Inr ([], sampleValue s, 0)"
    unfolding responseToTimeseries_row_def
    using valueRaw_cell [of 0 "[''valueRaw'']" "sampleValue s" "[]" "[]" "Float64frombits 0" 0]
    by simp
  show "responseToTimeseries_cells cols
          (Num (FormatInt (int64 (Float64bits (sampleValue s)))) # row) i (metric', v, t)
        = responseToTimeseries_cells cols row (Suc i) (metric', sampleValue s, t)"
    if "i < length cols \<and> cols ! i = ''valueRaw''"
    using that by (intro valueRaw_cell) simp_all
qed

theorem float64_bits_roundtrip_witness:
  "writesToCrateRequest_args exampleSprintf_f [''a''] [(''a'', ''1'')]
      \<lparr>sampleValue = Float64frombits 0xFFF0000000000000, sampleTimestampMs = 1000\<rparr>
     = [Str ''1'', Str ''-Inf'', I64 (- 4503599627370496), I64 1000]
   \<and> FormatInt (- 4503599627370496) = ''-4503599627370496''
   \<and> responseToTimeseries_cells [''la'', ''value'', ''valueRaw'', ''timestamp'']
        [Num ''-4503599627370496'', Num ''1000''] 2 ([(''a'', ''1'')], Float64frombits 0, 0)
     = Inr ([(''a'', ''1'')], Float64frombits 0xFFF0000000000000, 1000)
   \<and> responseToTimeseries_row [''valueRaw''] [Num ''9221120237041090561'']
     = Inr ([], Float64frombits 0x7FF8000000000001, 0)"
  using float64_bits_roundtrip [of exampleSprintf_f "[''a'']" "[(''a'', ''1'')]"
      "\<lparr>sampleValue = Float64frombits 0xFFF0000000000000, sampleTimestampMs = 1000\<rparr>"
      2 "[''la'', ''value'', ''valueRaw'', ''timestamp'']" "[Num ''1000'']"
      "[(''a'', ''1'')]" "Float64frombits 0" 0]
    float64_bits_roundtrip [of exampleSprintf_f "[]" "[]"
      "\<lparr>sampleValue = Float64frombits 0x7FF8000000000001, sampleTimestampMs = 0\<rparr>"
      0 "[]" "[]" "[]" "Float64frombits 0" 0]
  by (simp add: writesToCrateRequest_args_def map_access_def exampleSprintf_f_def int64_def
      FormatInt_def FormatUint.simps Number_Int64_def ParseInt_def ParseUint_def isDigit_def)

end
